theory Spec2Isabelle
  imports Complex_Main "HOL-Library.Word"
begin

unbundle bit_operations_syntax

section \<open>ConvolutionBuffer (src/common/audio/ConvolutionBuffer.cxx)\<close>

text \<open>
  The buffer holds \<open>mySize\<close> floats in \<open>myData\<close> and the index of the oldest one in
  \<open>myFirstIndex\<close>. The sample type is left open: it only needs a zero, an addition and a
  multiplication, and no algebraic law of them is used anywhere, so that every statement
  below also holds of IEEE floats with their rounding.
\<close>

record 'a ConvolutionBuffer =
  myFirstIndex :: nat
  mySize :: nat
  myData :: "'a list"

text \<open>The constructor: \<open>myFirstIndex(0)\<close>, \<open>mySize(size)\<close>, and the data zeroed.\<close>

definition ConvolutionBuffer_new :: "nat \<Rightarrow> ('a::zero) ConvolutionBuffer" where
  "ConvolutionBuffer_new size' =
     \<lparr> myFirstIndex = 0, mySize = size', myData = replicate size' 0 \<rparr>"

text \<open>
  \<open>myData[myFirstIndex] = nextValue; myFirstIndex = (myFirstIndex + 1) % mySize;\<close>
  The remainder by \<open>mySize = 0\<close> is undefined in C++; the statements about \<open>shift\<close>
  assume a buffer of positive size.
\<close>

definition shift :: "'a \<Rightarrow> 'a ConvolutionBuffer \<Rightarrow> 'a ConvolutionBuffer" where
  "shift nextValue b =
     b\<lparr> myData := (myData b)[myFirstIndex b := nextValue],
        myFirstIndex := (myFirstIndex b + 1) mod mySize b \<rparr>"

text \<open>The loop of \<open>convoluteWith\<close>, from index \<open>i\<close> with the running \<open>result\<close>.\<close>

function convoluteLoop ::
  "('a::{plus,times}) list \<Rightarrow> 'a ConvolutionBuffer \<Rightarrow> nat \<Rightarrow> 'a \<Rightarrow> 'a" where
  "convoluteLoop kern b i result =
     (if i < mySize b
      then convoluteLoop kern b (i + 1)
             (result + kern ! i * myData b ! ((myFirstIndex b + i) mod mySize b))
      else result)"
  by pat_completeness auto
termination
  by (relation "measure (\<lambda>(kern, b, i, result). mySize b - i)") auto

declare convoluteLoop.simps [simp del]

definition convoluteWith ::
  "('a::{zero,plus,times}) list \<Rightarrow> 'a ConvolutionBuffer \<Rightarrow> 'a" where
  "convoluteWith kern b = convoluteLoop kern b 0 0"

text \<open>
  The class invariant: the array has \<open>mySize\<close> entries and the index of the oldest
  sample is inside it.
\<close>

definition buffer_ok :: "'a ConvolutionBuffer \<Rightarrow> bool" where
  "buffer_ok b \<longleftrightarrow> length (myData b) = mySize b \<and> myFirstIndex b < mySize b"

text \<open>The stored samples from the oldest to the newest.\<close>

definition history :: "'a ConvolutionBuffer \<Rightarrow> 'a list" where
  "history b = rotate (myFirstIndex b) (myData b)"

text \<open>The dot product, accumulated from the left as the loop does.\<close>

definition dot :: "('a::{zero,plus,times}) list \<Rightarrow> 'a list \<Rightarrow> 'a" where
  "dot ks xs = foldl (\<lambda>r (k, x). r + k * x) 0 (zip ks xs)"

section \<open>reducedDenominator (src/common/audio/LanczosResampler.cxx)\<close>

text \<open>
  The \<open>for\<close> loop of \<open>reducedDenominator\<close>: on a common divisor \<open>i\<close> both numbers are
  divided, \<open>i\<close> is set to the new minimum, and the loop's \<open>--i\<close> then runs as after
  every iteration. The values are \<open>uInt32\<close>; the body only runs with
  \<open>1 < i\<close>, and no step of it can leave the range (the numbers only shrink), so they are
  natural numbers here.
\<close>

function reducedLoop :: "nat \<Rightarrow> nat \<Rightarrow> nat \<Rightarrow> nat" where
  "reducedLoop n d i =
     (if 1 < i
      then (if n mod i = 0 \<and> d mod i = 0
            then reducedLoop (n div i) (d div i) (min (n div i) (d div i) - 1)
            else reducedLoop n d (i - 1))
      else d)"
  by pat_completeness auto
termination
proof (relation "measures [\<lambda>(n, d, i). n + d, \<lambda>(n, d, i). i]")
  show "wf (measures [\<lambda>(n, d, i). n + d, \<lambda>(n, d, i). i])" by simp
next
  fix n d i :: nat
  assume i: "1 < i" and "n mod i = 0 \<and> d mod i = 0"
  have "n div i \<le> n" "d div i \<le> d" by simp_all
  moreover have "min (n div i) (d div i) - 1 < i" if "n div i + d div i = n + d"
  proof -
    from that \<open>n div i \<le> n\<close> \<open>d div i \<le> d\<close> have "n div i = n" by linarith
    with i have "n = 0" by (metis div_less_dividend neq0_conv less_irrefl)
    then show ?thesis using i by simp
  qed
  ultimately show "((n div i, d div i, min (n div i) (d div i) - 1), n, d, i)
        \<in> measures [\<lambda>(n, d, i). n + d, \<lambda>(n, d, i). i]"
    by (auto simp: le_less)
next
  fix n d i :: nat
  assume "1 < i"
  then show "((n, d, i - 1), n, d, i) \<in> measures [\<lambda>(n, d, i). n + d, \<lambda>(n, d, i). i]"
    by simp
qed

declare reducedLoop.simps [simp del]

definition reducedDenominator :: "nat \<Rightarrow> nat \<Rightarrow> nat" where
  "reducedDenominator n d = reducedLoop n d (min n d)"


section \<open>LanczosResampler (src/common/audio/LanczosResampler.cxx, Resampler.hxx)\<close>

text \<open>\<open>Resampler::Format\<close>; the two numbers are \<open>uInt32\<close>.\<close>

record Format =
  sampleRate :: nat
  fragmentSize :: nat
  stereo :: bool

type_synonym Int16 = "16 word"

text \<open>
  What the resampler takes from outside this file: the conversion of an integer to
  \<open>float\<close>, the double-precision quotient \<open>sin(M_PI * x) / M_PI / x\<close> of \<open>sinc\<close>
  rounded to \<open>float\<close>, the two constants, and the class \<open>HighPass\<close> (its constructor and
  \<open>apply\<close>, which returns the filtered sample and updates the filter). Floats are a type
  \<open>'a\<close> with the bare operations \<open>0\<close>, \<open>1\<close>, \<open>+\<close>, \<open>-\<close>, \<open>*\<close>, \<open>/\<close>.
\<close>

record ('a, 'h) FloatEnv =
  float_of :: "int \<Rightarrow> 'a"
  sin_quotient :: "'a \<Rightarrow> 'a"
  CLIPPING_FACTOR :: 'a
  HIGH_PASS_CUT_OFF :: 'a
  HighPass_new :: "'a \<Rightarrow> 'a \<Rightarrow> 'h"
  HighPass_apply :: "'a \<Rightarrow> 'h \<Rightarrow> 'a \<times> 'h"

text \<open>
  The object. \<open>myNextFragmentCallback\<close> is a \<open>std::function<Int16*()>\<close>: what its
  successive calls return is a sequence, \<open>None\<close> for \<open>nullptr\<close>, and \<open>callbackCalls\<close>
  counts the calls made so far. A fragment is the array behind the returned pointer. The
  three buffers are \<open>unique_ptr\<close>s, \<open>None\<close> when null. \<open>cerr\<close> collects what is printed.
\<close>

record ('a, 'h) LanczosResampler =
  myFormatFrom :: Format
  myFormatTo :: Format
  myNextFragmentCallback :: "nat \<Rightarrow> Int16 list option"
  callbackCalls :: nat
  myPrecomputedKernelCount :: nat
  myKernelSize :: nat
  myCurrentKernelIndex :: nat
  myPrecomputedKernels :: "'a list"
  myKernelParameter :: nat
  myCurrentFragment :: "Int16 list option"
  myFragmentIndex :: nat
  myIsUnderrun :: bool
  myBufferL :: "'a ConvolutionBuffer option"
  myBufferR :: "'a ConvolutionBuffer option"
  myBuffer :: "'a ConvolutionBuffer option"
  myHighPassL :: 'h
  myHighPassR :: 'h
  myHighPass :: 'h
  myTimeIndex :: nat
  cerr :: "string list"

text \<open>Arithmetic on \<open>uInt32\<close> wraps.\<close>

definition u32 :: "nat \<Rightarrow> nat" where
  "u32 x = x mod 2 ^ 32"

definition sinc :: "('a, 'h) FloatEnv \<Rightarrow> ('a::{zero,one}) \<Rightarrow> 'a" where
  "sinc E x = (if x = 0 then 1 else sin_quotient E x)"

definition lanczosKernel ::
  "('a, 'h) FloatEnv \<Rightarrow> ('a::{zero,one,times,inverse}) \<Rightarrow> nat \<Rightarrow> 'a" where
  "lanczosKernel E x a = sinc E x * sinc E (x / float_of E (int a))"

text \<open>The inner loop of \<open>precomputeKernels\<close>, over the taps \<open>j\<close> of kernel \<open>i\<close>.\<close>

function kernelLoop ::
  "('a, 'h) FloatEnv \<Rightarrow> nat \<Rightarrow> nat \<Rightarrow> nat \<Rightarrow> 'a \<Rightarrow> nat
     \<Rightarrow> ('a::{zero,one,plus,minus,times,inverse}) list \<Rightarrow> 'a list" where
  "kernelLoop E kernelSize kernelParameter i center j kernels =
     (if j < u32 (2 * kernelParameter)
      then kernelLoop E kernelSize kernelParameter i center (j + 1)
             (kernels[u32 (kernelSize * i) + j :=
                lanczosKernel E
                  (center - float_of E (int j) + float_of E (int kernelParameter) - 1)
                  kernelParameter * CLIPPING_FACTOR E])
      else kernels)"
  by pat_completeness auto
termination
  by (relation "measure (\<lambda>(E, ks, kp, i, c, j, k). u32 (2 * kp) - j)") auto

declare kernelLoop.simps [simp del]

text \<open>The outer loop of \<open>precomputeKernels\<close>, over the kernels, with \<open>timeIndex\<close>.\<close>

function precomputeLoop ::
  "('a, 'h) FloatEnv \<Rightarrow> Format \<Rightarrow> Format \<Rightarrow> nat \<Rightarrow> nat \<Rightarrow> nat \<Rightarrow> nat \<Rightarrow> nat
     \<Rightarrow> ('a::{zero,one,plus,minus,times,inverse}) list \<Rightarrow> 'a list" where
  "precomputeLoop E formatFrom formatTo kernelCount kernelSize kernelParameter i timeIndex kernels =
     (if i < kernelCount
      then precomputeLoop E formatFrom formatTo kernelCount kernelSize kernelParameter (i + 1)
             (u32 (timeIndex + sampleRate formatFrom) mod sampleRate formatTo)
             (kernelLoop E kernelSize kernelParameter i
                (float_of E (int timeIndex) / float_of E (int (sampleRate formatTo))) 0 kernels)
      else kernels)"
  by pat_completeness auto
termination
  by (relation "measure (\<lambda>(E, f, t, kc, ks, kp, i, ti, k). kc - i)") auto

declare precomputeLoop.simps [simp del]

text \<open>
  The constructor. \<open>make_unique<float[]>(n)\<close> value-initialises the \<open>n\<close> floats, and a
  \<open>ConvolutionBuffer\<close> is made for each channel of the source format.
\<close>

definition LanczosResampler_new ::
  "('a, 'h) FloatEnv \<Rightarrow> Format \<Rightarrow> Format \<Rightarrow> (nat \<Rightarrow> Int16 list option) \<Rightarrow> nat
     \<Rightarrow> ('a::{zero,one,plus,minus,times,inverse}, 'h) LanczosResampler" where
  "LanczosResampler_new E formatFrom formatTo nextFragmentCallback kernelParameter =
     (let kernelCount = reducedDenominator (sampleRate formatFrom) (sampleRate formatTo);
          kernelSize = u32 (2 * kernelParameter);
          highPass = HighPass_new E (HIGH_PASS_CUT_OFF E) (float_of E (int (sampleRate formatFrom)))
      in \<lparr> myFormatFrom = formatFrom,
           myFormatTo = formatTo,
           myNextFragmentCallback = nextFragmentCallback,
           callbackCalls = 0,
           myPrecomputedKernelCount = kernelCount,
           myKernelSize = kernelSize,
           myCurrentKernelIndex = 0,
           myPrecomputedKernels =
             precomputeLoop E formatFrom formatTo kernelCount kernelSize kernelParameter 0 0
               (replicate (u32 (kernelCount * kernelSize)) 0),
           myKernelParameter = kernelParameter,
           myCurrentFragment = None,
           myFragmentIndex = 0,
           myIsUnderrun = True,
           myBufferL = (if stereo formatFrom then Some (ConvolutionBuffer_new kernelSize) else None),
           myBufferR = (if stereo formatFrom then Some (ConvolutionBuffer_new kernelSize) else None),
           myBuffer = (if stereo formatFrom then None else Some (ConvolutionBuffer_new kernelSize)),
           myHighPassL = highPass,
           myHighPassR = highPass,
           myHighPass = highPass,
           myTimeIndex = 0,
           cerr = [] \<rparr>)"


text \<open>One call of \<open>myNextFragmentCallback()\<close>.\<close>

definition nextFragment ::
  "('a, 'h) LanczosResampler \<Rightarrow> Int16 list option \<times> ('a, 'h) LanczosResampler" where
  "nextFragment r =
     (myNextFragmentCallback r (callbackCalls r), r\<lparr> callbackCalls := callbackCalls r + 1 \<rparr>)"

text \<open>
  \<open>myCurrentFragment[k] / static_cast<float>(0x7fff)\<close>: the \<open>Int16\<close> is read as a
  signed number. Reading through a null pointer or past the array is undefined in C++;
  \<open>resampler_ok\<close> below excludes both.
\<close>

definition sampleAt :: "('a, 'h) FloatEnv \<Rightarrow> Int16 list option \<Rightarrow> nat \<Rightarrow> ('a::inverse)" where
  "sampleAt E currentFragment k =
     float_of E (sint (the currentFragment ! k)) / float_of E 32767"

text \<open>The body of the \<open>while\<close> loop of \<open>shiftSamples\<close>.\<close>

definition shiftStep ::
  "('a, 'h) FloatEnv \<Rightarrow> ('a::inverse, 'h) LanczosResampler \<Rightarrow> ('a, 'h) LanczosResampler" where
  "shiftStep E r =
     (let r1 =
        (if stereo (myFormatFrom r)
         then
           (let (l, hl) = HighPass_apply E
                  (sampleAt E (myCurrentFragment r) (u32 (2 * myFragmentIndex r))) (myHighPassL r);
                rl = r\<lparr> myHighPassL := hl, myBufferL := map_option (shift l) (myBufferL r) \<rparr>;
                (x, hr) = HighPass_apply E
                  (sampleAt E (myCurrentFragment rl) (u32 (u32 (2 * myFragmentIndex rl) + 1)))
                  (myHighPassR rl)
            in rl\<lparr> myHighPassR := hr, myBufferR := map_option (shift x) (myBufferR rl) \<rparr>)
         else
           (let (m, h) = HighPass_apply E
                  (sampleAt E (myCurrentFragment r) (myFragmentIndex r)) (myHighPass r)
            in r\<lparr> myHighPass := h, myBuffer := map_option (shift m) (myBuffer r) \<rparr>));
          r2 = r1\<lparr> myFragmentIndex := u32 (myFragmentIndex r1 + 1) \<rparr>
      in if fragmentSize (myFormatFrom r2) \<le> myFragmentIndex r2
         then
           (let r3 = r2\<lparr> myFragmentIndex :=
                            myFragmentIndex r2 mod fragmentSize (myFormatFrom r2) \<rparr>;
                (next, r4) = nextFragment r3
            in case next of
                 Some f \<Rightarrow> r4\<lparr> myCurrentFragment := Some f, myIsUnderrun := False \<rparr>
               | None \<Rightarrow> r4\<lparr> cerr := cerr r4 @ [''audio buffer underrun'' @ [CHR 0x0A]],
                               myIsUnderrun := True \<rparr>)
         else r2)"

text \<open>\<open>while (samplesToShift-- > 0) { ... }\<close>\<close>

fun shiftSamples ::
  "('a, 'h) FloatEnv \<Rightarrow> nat \<Rightarrow> ('a::inverse, 'h) LanczosResampler \<Rightarrow> ('a, 'h) LanczosResampler" where
  "shiftSamples E 0 r = r"
| "shiftSamples E (Suc samplesToShift) r = shiftSamples E samplesToShift (shiftStep E r)"














text \<open>
  An environment and a resampler to run the code on: samples are rationals, the filter
  passes its input through, and the callback has one mono fragment, then none.
\<close>

definition exampleEnv :: "(rat, unit) FloatEnv" where
  "exampleEnv =
     \<lparr> float_of = of_int, sin_quotient = (\<lambda>x. 0), CLIPPING_FACTOR = 3 / 4,
       HIGH_PASS_CUT_OFF = 10, HighPass_new = (\<lambda>c f. ()),
       HighPass_apply = (\<lambda>x h. (x, h)) \<rparr>"

definition exampleCallback :: "nat \<Rightarrow> Int16 list option" where
  "exampleCallback n = (if n = 0 then Some [32767, 32767] else None)"



section \<open>Console (src/emucore/Console.cxx)\<close>

subsection \<open>What the console works with\<close>

text \<open>
  \<open>FrameLayout\<close> with the two values the console uses. A \<open>Serializer\<close> is the stream
  of bytes written to it and not yet read. A call of \<open>save\<close> or \<open>load\<close> of a component
  returns a \<open>bool\<close> or throws.
\<close>

datatype FrameLayout = ntsc | pal

type_synonym Serializer = "8 word list"

datatype outcome = Returned bool | Threw

text \<open>
  The frame manager that the TIA points to: the console's own \<open>myFrameManager\<close>, or a
  detector that is a local variable of the running function.
\<close>

datatype FrameManagerRef = MyFrameManager | LocalFrameLayoutDetector | LocalYStartDetector

text \<open>
  The emulated machine as far as the console's \<open>save\<close> and \<open>load\<close> reach: the system
  (CPU, RIOT, TIA and cartridge), the two controllers and the switches.
\<close>

type_synonym ('sys, 'ctl, 'sw) machine = "'sys \<times> 'ctl \<times> 'ctl \<times> 'sw"

text \<open>
  The classes the console calls and that are not in these sources, as functions: the
  \<open>save\<close> and \<open>load\<close> of \<open>System\<close>, \<open>Controller\<close> and \<open>Switches\<close>;
  \<open>System::reset(autodetect)\<close> and \<open>TIA::update()\<close>, which run the machine under the
  current \<open>fastscbios\<close> setting, \<open>update\<close> also on the frame manager the TIA points to;
  the constructors and getters of the two detectors; and the default value of the
  parameter \<open>reset\<close> of \<open>autodetectFrameLayout\<close> and \<open>autodetectYStart\<close>, declared in
  \<open>Console.hxx\<close>.
\<close>

record ('sys, 'ctl, 'sw, 'fm) Collaborators =
  systemSave :: "'sys \<Rightarrow> Serializer \<Rightarrow> outcome \<times> Serializer"
  systemLoad :: "Serializer \<Rightarrow> 'sys \<Rightarrow> outcome \<times> 'sys \<times> Serializer"
  controllerSave :: "'ctl \<Rightarrow> Serializer \<Rightarrow> outcome \<times> Serializer"
  controllerLoad :: "Serializer \<Rightarrow> 'ctl \<Rightarrow> outcome \<times> 'ctl \<times> Serializer"
  switchesSave :: "'sw \<Rightarrow> Serializer \<Rightarrow> outcome \<times> Serializer"
  switchesLoad :: "Serializer \<Rightarrow> 'sw \<Rightarrow> outcome \<times> 'sw \<times> Serializer"
  systemReset :: "bool \<Rightarrow> bool \<Rightarrow> ('sys, 'ctl, 'sw) machine \<Rightarrow> ('sys, 'ctl, 'sw) machine"
  tiaUpdate :: "bool \<Rightarrow> ('sys, 'ctl, 'sw) machine \<Rightarrow> 'fm \<Rightarrow> ('sys, 'ctl, 'sw) machine \<times> 'fm"
  newFrameLayoutDetector :: 'fm
  detectedLayout :: "'fm \<Rightarrow> FrameLayout"
  newYStartDetector :: 'fm
  setLayout :: "FrameLayout \<Rightarrow> 'fm \<Rightarrow> 'fm"
  detectedYStart :: "'fm \<Rightarrow> 32 word"
  defaultReset :: bool

text \<open>
  The console. \<open>tiaFrameManager\<close> is the pointer given to \<open>TIA::setFrameManager\<close>;
  \<open>fastscbios\<close> is that setting of \<open>myOSystem.settings()\<close>; \<open>soundOpen\<close> and
  \<open>audioQueues\<close> (the number of audio queues made so far, the last one being connected
  to the TIA and the sound) stand for the audio side; \<open>consoleCerr\<close> collects what is
  printed; the three tables are the static user palettes.
\<close>

record ('sys, 'ctl, 'sw, 'fm) Console =
  mySystem :: 'sys
  myLeftControl :: 'ctl
  myRightControl :: 'ctl
  mySwitches :: 'sw
  myFrameManager :: 'fm
  tiaFrameManager :: FrameManagerRef
  myDisplayFormat :: string
  myCurrentFormat :: "32 word"
  myAutodetectedYstart :: "32 word"
  myYStartAutodetected :: bool
  myUserPaletteDefined :: bool
  fastscbios :: bool
  soundOpen :: bool
  audioQueues :: nat
  consoleCerr :: "string list"
  ourUserNTSCPalette :: "32 word list"
  ourUserPALPalette :: "32 word list"
  ourUserSECAMPalette :: "32 word list"

definition YSTART_EXTRA :: "8 word" where
  "YSTART_EXTRA = 2"

definition machine :: "('sys, 'ctl, 'sw, 'fm) Console \<Rightarrow> ('sys, 'ctl, 'sw) machine" where
  "machine c = (mySystem c, myLeftControl c, myRightControl c, mySwitches c)"

definition setMachine ::
  "('sys, 'ctl, 'sw) machine \<Rightarrow> ('sys, 'ctl, 'sw, 'fm) Console \<Rightarrow> ('sys, 'ctl, 'sw, 'fm) Console" where
  "setMachine m c =
     (case m of (s, l, r, w) \<Rightarrow>
        c\<lparr> mySystem := s, myLeftControl := l, myRightControl := r, mySwitches := w \<rparr>)"

subsection \<open>save and load\<close>

text \<open>
  \<open>Console::save\<close>: the system, then the left controller, the right controller and the
  switches, stopping at the first \<open>false\<close>; an exception is caught, reported on \<open>cerr\<close>
  and turned into \<open>false\<close>. The result is the returned \<open>bool\<close>, the serializer and the
  console (only its \<open>cerr\<close> can have changed).
\<close>

definition Console_save ::
  "('sys, 'ctl, 'sw, 'fm) Collaborators \<Rightarrow> Serializer \<Rightarrow> ('sys, 'ctl, 'sw, 'fm) Console
     \<Rightarrow> bool \<times> Serializer \<times> ('sys, 'ctl, 'sw, 'fm) Console" where
  "Console_save W out c =
     (let caught = (\<lambda>out'. (False, out', c\<lparr> consoleCerr := consoleCerr c @ [''ERROR: Console::save''] \<rparr>))
      in case systemSave W (mySystem c) out of
           (Threw, out1) \<Rightarrow> caught out1
         | (Returned False, out1) \<Rightarrow> (False, out1, c)
         | (Returned True, out1) \<Rightarrow>
        (case controllerSave W (myLeftControl c) out1 of
           (Threw, out2) \<Rightarrow> caught out2
         | (Returned False, out2) \<Rightarrow> (False, out2, c)
         | (Returned True, out2) \<Rightarrow>
        (case controllerSave W (myRightControl c) out2 of
           (Threw, out3) \<Rightarrow> caught out3
         | (Returned False, out3) \<Rightarrow> (False, out3, c)
         | (Returned True, out3) \<Rightarrow>
        (case switchesSave W (mySwitches c) out3 of
           (Threw, out4) \<Rightarrow> caught out4
         | (Returned False, out4) \<Rightarrow> (False, out4, c)
         | (Returned True, out4) \<Rightarrow> (True, out4, c)))))"

text \<open>
  \<open>Console::load\<close>, in the same order. Each component is handed the serializer where the
  one before left it, and what a component has made of its own state stays, whether its
  \<open>load\<close> returned \<open>true\<close>, returned \<open>false\<close> or threw.
\<close>

definition Console_load ::
  "('sys, 'ctl, 'sw, 'fm) Collaborators \<Rightarrow> Serializer \<Rightarrow> ('sys, 'ctl, 'sw, 'fm) Console
     \<Rightarrow> bool \<times> Serializer \<times> ('sys, 'ctl, 'sw, 'fm) Console" where
  "Console_load W in' c =
     (let caught = (\<lambda>in'' c'. (False, in'', c'\<lparr> consoleCerr := consoleCerr c' @ [''ERROR: Console::load''] \<rparr>))
      in case systemLoad W in' (mySystem c) of (o1, s, in1) \<Rightarrow>
        (let c1 = c\<lparr> mySystem := s \<rparr>
         in case o1 of
              Threw \<Rightarrow> caught in1 c1
            | Returned False \<Rightarrow> (False, in1, c1)
            | Returned True \<Rightarrow>
        (case controllerLoad W in1 (myLeftControl c1) of (o2, l, in2) \<Rightarrow>
        (let c2 = c1\<lparr> myLeftControl := l \<rparr>
         in case o2 of
              Threw \<Rightarrow> caught in2 c2
            | Returned False \<Rightarrow> (False, in2, c2)
            | Returned True \<Rightarrow>
        (case controllerLoad W in2 (myRightControl c2) of (o3, r, in3) \<Rightarrow>
        (let c3 = c2\<lparr> myRightControl := r \<rparr>
         in case o3 of
              Threw \<Rightarrow> caught in3 c3
            | Returned False \<Rightarrow> (False, in3, c3)
            | Returned True \<Rightarrow>
        (case switchesLoad W in3 (mySwitches c3) of (o4, w, in4) \<Rightarrow>
        (let c4 = c3\<lparr> mySwitches := w \<rparr>
         in case o4 of
              Threw \<Rightarrow> caught in4 c4
            | Returned False \<Rightarrow> (False, in4, c4)
            | Returned True \<Rightarrow> (True, in4, c4)))))))))"

subsection \<open>Autodetection\<close>

text \<open>
  \<open>myTIA->update()\<close> while a function with a local detector \<open>det\<close> runs: the TIA works
  on the frame manager it points to.
\<close>

definition TIA_update ::
  "('sys, 'ctl, 'sw, 'fm) Collaborators \<Rightarrow> ('sys, 'ctl, 'sw, 'fm) Console \<times> 'fm
     \<Rightarrow> ('sys, 'ctl, 'sw, 'fm) Console \<times> 'fm" where
  "TIA_update W cd =
     (case cd of (c, det) \<Rightarrow>
        (case tiaFrameManager c of
           MyFrameManager \<Rightarrow>
             (case tiaUpdate W (fastscbios c) (machine c) (myFrameManager c) of
                (m, fm) \<Rightarrow> (setMachine m (c\<lparr> myFrameManager := fm \<rparr>), det))
         | _ \<Rightarrow>
             (case tiaUpdate W (fastscbios c) (machine c) det of
                (m, det') \<Rightarrow> (setMachine m c, det'))))"

text \<open>\<open>for(int i = 0; i < n; ++i) myTIA->update();\<close>, from \<open>i\<close> on.\<close>

function updateLoop ::
  "('sys, 'ctl, 'sw, 'fm) Collaborators \<Rightarrow> int \<Rightarrow> int \<Rightarrow> ('sys, 'ctl, 'sw, 'fm) Console \<times> 'fm
     \<Rightarrow> ('sys, 'ctl, 'sw, 'fm) Console \<times> 'fm" where
  "updateLoop W n i cd = (if i < n then updateLoop W n (i + 1) (TIA_update W cd) else cd)"
  by pat_completeness auto
termination
  by (relation "measure (\<lambda>(W, n, i, cd). nat (n - i))") auto

declare updateLoop.simps [simp del]

text \<open>
  \<open>k\<close> frames of the machine with a frame manager of its own, under a setting of
  \<open>fastscbios\<close>: no console around it.
\<close>

definition frames ::
  "('sys, 'ctl, 'sw, 'fm) Collaborators \<Rightarrow> bool \<Rightarrow> nat \<Rightarrow> ('sys, 'ctl, 'sw) machine \<times> 'fm
     \<Rightarrow> ('sys, 'ctl, 'sw) machine \<times> 'fm" where
  "frames W fast k md = ((\<lambda>(m, d). tiaUpdate W fast m d) ^^ k) md"

text \<open>
  \<open>autodetectFrameLayout(reset)\<close> up to the end of the loop, with the local
  \<open>frameLayoutDetector\<close>, and the whole function.
\<close>

definition runFrameLayoutDetector ::
  "('sys, 'ctl, 'sw, 'fm) Collaborators \<Rightarrow> bool \<Rightarrow> ('sys, 'ctl, 'sw, 'fm) Console
     \<Rightarrow> ('sys, 'ctl, 'sw, 'fm) Console \<times> 'fm" where
  "runFrameLayoutDetector W reset c =
     (let c1 = c\<lparr> fastscbios := True \<rparr>;
          frameLayoutDetector = newFrameLayoutDetector W;
          c2 = c1\<lparr> tiaFrameManager := LocalFrameLayoutDetector \<rparr>;
          c3 = (if reset then setMachine (systemReset W (fastscbios c2) True (machine c2)) c2 else c2)
      in updateLoop W 60 0 (c3, frameLayoutDetector))"

definition autodetectFrameLayout ::
  "('sys, 'ctl, 'sw, 'fm) Collaborators \<Rightarrow> bool \<Rightarrow> ('sys, 'ctl, 'sw, 'fm) Console
     \<Rightarrow> ('sys, 'ctl, 'sw, 'fm) Console" where
  "autodetectFrameLayout W reset c =
     (let fastscbios' = fastscbios c
      in case runFrameLayoutDetector W reset c of (c4, frameLayoutDetector) \<Rightarrow>
           c4\<lparr> tiaFrameManager := MyFrameManager,
               myDisplayFormat :=
                 (if detectedLayout W frameLayoutDetector = pal then ''PAL'' else ''NTSC''),
               fastscbios := fastscbios' \<rparr>)"

text \<open>The same for \<open>autodetectYStart(reset)\<close> and its local \<open>ystartDetector\<close>.\<close>

definition runYStartDetector ::
  "('sys, 'ctl, 'sw, 'fm) Collaborators \<Rightarrow> bool \<Rightarrow> ('sys, 'ctl, 'sw, 'fm) Console
     \<Rightarrow> ('sys, 'ctl, 'sw, 'fm) Console \<times> 'fm" where
  "runYStartDetector W reset c =
     (let c1 = c\<lparr> fastscbios := True \<rparr>;
          ystartDetector =
            setLayout W (if myDisplayFormat c1 = ''PAL'' then pal else ntsc) (newYStartDetector W);
          c2 = c1\<lparr> tiaFrameManager := LocalYStartDetector \<rparr>;
          c3 = (if reset then setMachine (systemReset W (fastscbios c2) True (machine c2)) c2 else c2)
      in updateLoop W 80 0 (c3, ystartDetector))"

definition autodetectYStart ::
  "('sys, 'ctl, 'sw, 'fm) Collaborators \<Rightarrow> bool \<Rightarrow> ('sys, 'ctl, 'sw, 'fm) Console
     \<Rightarrow> ('sys, 'ctl, 'sw, 'fm) Console" where
  "autodetectYStart W reset c =
     (let fastscbios' = fastscbios c
      in case runYStartDetector W reset c of (c4, ystartDetector) \<Rightarrow>
           c4\<lparr> tiaFrameManager := MyFrameManager,
               myAutodetectedYstart := detectedYStart W ystartDetector - ucast YSTART_EXTRA,
               fastscbios := fastscbios',
               myYStartAutodetected := True \<rparr>)"

text \<open>
  \<open>initializeAudio\<close>, as far as the console's own state goes: the sound is closed, a new
  audio queue is made and connected, and the sound is opened on it.
\<close>

definition initializeAudio ::
  "('sys, 'ctl, 'sw, 'fm) Console \<Rightarrow> ('sys, 'ctl, 'sw, 'fm) Console" where
  "initializeAudio c = c\<lparr> audioQueues := audioQueues c + 1, soundOpen := True \<rparr>"


definition redetectYStart ::
  "('sys, 'ctl, 'sw, 'fm) Collaborators \<Rightarrow> ('sys, 'ctl, 'sw, 'fm) Console
     \<Rightarrow> ('sys, 'ctl, 'sw, 'fm) Console" where
  "redetectYStart W c =
     (let c1 = c\<lparr> soundOpen := False \<rparr>
      in case Console_save W [] c1 of (saved, s, c2) \<Rightarrow>
        (let c3 = autodetectYStart W False c2
         in case Console_load W s c3 of (loaded, s', c4) \<Rightarrow> initializeAudio c4))"



subsection \<open>The user palette\<close>

text \<open>
  \<open>(int(pixbuf[0]) << 16) + (int(pixbuf[1]) << 8) + int(pixbuf[2])\<close>, stored in a
  \<open>uInt32\<close>.
\<close>

definition pixelOf :: "8 word list \<Rightarrow> 32 word" where
  "pixelOf pixbuf =
     push_bit 16 (ucast (pixbuf ! 0)) + push_bit 8 (ucast (pixbuf ! 1)) + ucast (pixbuf ! 2)"

text \<open>
  The loops over the NTSC and the PAL colours have the same body: \<open>in.read\<close> takes the
  next three bytes of the stream \<open>in'\<close> and the pixel goes to entry \<open>i << 1\<close> of the
  table. The loops are only reached when the file holds all the bytes they read.
\<close>

function readPalette :: "nat \<Rightarrow> 8 word list \<times> 32 word list \<Rightarrow> 8 word list \<times> 32 word list" where
  "readPalette i st =
     (if i < 128
      then (case st of (in', table) \<Rightarrow>
              readPalette (i + 1) (drop 3 in', table[push_bit 1 i := pixelOf (take 3 in')]))
      else st)"
  by pat_completeness auto
termination
  by (relation "measure (\<lambda>(i, st). 128 - i)") auto

declare readPalette.simps [simp del]

text \<open>The loop over the SECAM colours fills the local array \<open>secam\<close> of 16 entries.\<close>

function readSecam :: "nat \<Rightarrow> 8 word list \<times> 32 word list \<Rightarrow> 8 word list \<times> 32 word list" where
  "readSecam i st =
     (if i < 8
      then (case st of (in', secam) \<Rightarrow>
              readSecam (i + 1)
                (drop 3 in', secam[push_bit 1 i := pixelOf (take 3 in'), push_bit 1 i + 1 := 0]))
      else st)"
  by pat_completeness auto
termination
  by (relation "measure (\<lambda>(i, st). 8 - i)") auto

declare readSecam.simps [simp del]

text \<open>
  The two loops that copy \<open>secam\<close> sixteen times into \<open>ourUserSECAMPalette\<close>; \<open>ptr\<close> is
  the index that \<open>*ptr++\<close> has reached.
\<close>

function copySecamRow :: "32 word list \<Rightarrow> nat \<Rightarrow> nat \<times> 32 word list \<Rightarrow> nat \<times> 32 word list" where
  "copySecamRow secam j st =
     (if j < 16
      then (case st of (ptr, table) \<Rightarrow>
              copySecamRow secam (j + 1) (ptr + 1, table[ptr := secam ! j]))
      else st)"
  by pat_completeness auto
termination
  by (relation "measure (\<lambda>(secam, j, st). 16 - j)") auto

declare copySecamRow.simps [simp del]

function copySecam :: "32 word list \<Rightarrow> nat \<Rightarrow> nat \<times> 32 word list \<Rightarrow> nat \<times> 32 word list" where
  "copySecam secam i st =
     (if i < 16 then copySecam secam (i + 1) (copySecamRow secam 0 st) else st)"
  by pat_completeness auto
termination
  by (relation "measure (\<lambda>(secam, i, st). 16 - i)") auto

declare copySecam.simps [simp del]

text \<open>
  \<open>loadUserPalette\<close>. The palette file is its name and, when it can be opened, its
  bytes. The local array \<open>secam\<close> starts uninitialised in C++; all its 16 entries are
  assigned before they are read.
\<close>

definition loadUserPalette ::
  "string \<Rightarrow> 8 word list option \<Rightarrow> ('sys, 'ctl, 'sw, 'fm) Console \<Rightarrow> ('sys, 'ctl, 'sw, 'fm) Console" where
  "loadUserPalette palette file c =
     (case file of
        None \<Rightarrow> c
      | Some bytes \<Rightarrow>
          if length bytes < 128 * 3 * 2 + 8 * 3
          then c\<lparr> consoleCerr := consoleCerr c @ [''ERROR: invalid palette file '' @ palette] \<rparr>
          else
            (case readPalette 0 (bytes, ourUserNTSCPalette c) of (in1, ntscTable) \<Rightarrow>
             case readPalette 0 (in1, ourUserPALPalette c) of (in2, palTable) \<Rightarrow>
             case readSecam 0 (in2, replicate 16 0) of (in3, secam) \<Rightarrow>
             case copySecam secam 0 (0, ourUserSECAMPalette c) of (ptr, secamTable) \<Rightarrow>
               c\<lparr> ourUserNTSCPalette := ntscTable,
                   ourUserPALPalette := palTable,
                   ourUserSECAMPalette := secamTable,
                   myUserPaletteDefined := True \<rparr>))"

text \<open>The colour that three bytes of a palette file stand for, as a number.\<close>

definition rgb :: "8 word list \<Rightarrow> nat \<Rightarrow> nat" where
  "rgb bytes k = 65536 * unat (bytes ! k) + 256 * unat (bytes ! (k + 1)) + unat (bytes ! (k + 2))"

subsection \<open>Snapshots that round-trip\<close>

text \<open>
  Modelled from the spec: the \<open>save\<close> and \<open>load\<close> of \<open>System\<close>, \<open>Controller\<close> and
  \<open>Switches\<close> are not in these sources. The spec asks of them that they "persist and
  restore complete chip and frame-layout state" and "must round-trip exactly": \<open>save\<close>
  succeeds and appends an encoding of the component's state to the serializer, and \<open>load\<close>,
  from whatever state, reads that encoding back, succeeds, and leaves the component in the
  saved state and the serializer at what follows.
\<close>

definition roundTrips ::
  "('c \<Rightarrow> 8 word list) \<Rightarrow> ('c \<Rightarrow> Serializer \<Rightarrow> outcome \<times> Serializer)
     \<Rightarrow> (Serializer \<Rightarrow> 'c \<Rightarrow> outcome \<times> 'c \<times> Serializer) \<Rightarrow> bool" where
  "roundTrips encode save load \<longleftrightarrow>
     (\<forall>c out. save c out = (Returned True, out @ encode c)) \<and>
     (\<forall>c c' rest. load (encode c @ rest) c' = (Returned True, c, rest))"

definition serializable :: "('sys, 'ctl, 'sw, 'fm) Collaborators \<Rightarrow> bool" where
  "serializable W \<longleftrightarrow>
     (\<exists>encode. roundTrips encode (systemSave W) (systemLoad W)) \<and>
     (\<exists>encode. roundTrips encode (controllerSave W) (controllerLoad W)) \<and>
     (\<exists>encode. roundTrips encode (switchesSave W) (switchesLoad W))"

subsection \<open>A machine to run the console's code on\<close>

text \<open>
  Every component's state is one byte, saved as that byte; a \<open>load\<close> from an exhausted
  serializer returns \<open>false\<close>. A frame manager counts the frames it has seen, an update
  advances the system and the left controller, and a reset clears the system.
\<close>

definition byteSave :: "8 word \<Rightarrow> Serializer \<Rightarrow> outcome \<times> Serializer" where
  "byteSave b out = (Returned True, out @ [b])"

definition byteLoad :: "Serializer \<Rightarrow> 8 word \<Rightarrow> outcome \<times> 8 word \<times> Serializer" where
  "byteLoad in' b = (case in' of [] \<Rightarrow> (Returned False, b, []) | x # rest \<Rightarrow> (Returned True, x, rest))"

definition exampleWorld :: "(8 word, 8 word, 8 word, nat) Collaborators" where
  "exampleWorld =
     \<lparr> systemSave = byteSave, systemLoad = byteLoad,
       controllerSave = byteSave, controllerLoad = byteLoad,
       switchesSave = byteSave, switchesLoad = byteLoad,
       systemReset = (\<lambda>fast autodetect (s, l, r, w). (0, l, r, w)),
       tiaUpdate = (\<lambda>fast (s, l, r, w) fm. ((s + 1, l + 1, r, w), fm + 1)),
       newFrameLayoutDetector = 0,
       detectedLayout = (\<lambda>fm. if 60 \<le> fm then pal else ntsc),
       newYStartDetector = 0,
       setLayout = (\<lambda>layout fm. fm),
       detectedYStart = (\<lambda>fm. of_nat fm),
       defaultReset = True \<rparr>"

definition exampleConsole :: "(8 word, 8 word, 8 word, nat) Console" where
  "exampleConsole =
     \<lparr> mySystem = 7, myLeftControl = 1, myRightControl = 2, mySwitches = 3,
       myFrameManager = 0, tiaFrameManager = MyFrameManager,
       myDisplayFormat = ''NTSC'', myCurrentFormat = 1,
       myAutodetectedYstart = 0, myYStartAutodetected = False,
       myUserPaletteDefined = False, fastscbios = False,
       soundOpen = True, audioQueues = 1, consoleCerr = [],
       ourUserNTSCPalette = replicate 256 0, ourUserPALPalette = replicate 256 0,
       ourUserSECAMPalette = replicate 256 0 \<rparr>"

section \<open>ConvolutionBuffer: shifting and convolution\<close>

lemma history_nth:
  "buffer_ok b \<Longrightarrow> i < mySize b \<Longrightarrow>
   history b ! i = myData b ! ((myFirstIndex b + i) mod mySize b)"
  by (simp add: history_def buffer_ok_def nth_rotate)

lemma length_history: "length (history b) = length (myData b)"
  by (simp add: history_def)

lemma convoluteLoop_foldl:
  "buffer_ok b \<Longrightarrow> mySize b \<le> length kern \<Longrightarrow>
   convoluteLoop kern b i r = foldl (\<lambda>r (k, x). r + k * x) r (drop i (zip kern (history b)))"
proof (induction kern b i r rule: convoluteLoop.induct)
  case (1 kern b i r)
  have len: "length (zip kern (history b)) = mySize b"
    using "1.prems" by (simp add: length_history buffer_ok_def)
  show ?case
  proof (cases "i < mySize b")
    case True
    have unf: "convoluteLoop kern b i r =
        convoluteLoop kern b (i + 1)
          (r + kern ! i * myData b ! ((myFirstIndex b + i) mod mySize b))"
      by (subst convoluteLoop.simps) (simp only: True if_True)
    have "drop i (zip kern (history b))
        = (kern ! i, history b ! i) # drop (Suc i) (zip kern (history b))"
      using True len "1.prems" by (simp add: Cons_nth_drop_Suc [symmetric] length_history buffer_ok_def)
    with "1.IH" [OF True "1.prems"] "1.prems" True show ?thesis
      unfolding unf by (simp add: history_nth)
  next
    case False
    have "convoluteLoop kern b i r = r"
      by (subst convoluteLoop.simps) (simp only: False if_False)
    moreover have "drop i (zip kern (history b)) = []"
      using False len by simp
    ultimately show ?thesis by simp
  qed
qed

lemma convoluteWith_dot:
  "buffer_ok b \<Longrightarrow> mySize b \<le> length kern \<Longrightarrow> convoluteWith kern b = dot kern (history b)"
  by (simp add: convoluteWith_def dot_def convoluteLoop_foldl)

lemma shift_ok: "buffer_ok b \<Longrightarrow> buffer_ok (shift v b)"
  by (simp add: buffer_ok_def shift_def)

lemma history_shift:
  assumes "buffer_ok b"
  shows "history (shift v b) = tl (history b) @ [v]"
proof -
  let ?f = "myFirstIndex b" and ?xs = "myData b"
  from assms have f: "?f < length ?xs" and S: "mySize b = length ?xs"
    by (simp_all add: buffer_ok_def)
  have h: "history b = drop ?f ?xs @ take ?f ?xs"
    using f by (simp add: history_def rotate_drop_take)
  have d: "drop ?f ?xs = ?xs ! ?f # drop (Suc ?f) ?xs"
    using f by (simp add: Cons_nth_drop_Suc)
  have t: "tl (history b) = drop (Suc ?f) ?xs @ take ?f ?xs"
    by (simp add: h d)
  have "history (shift v b) = drop (Suc ?f) ?xs @ take ?f ?xs @ [v]"
  proof (cases "Suc ?f < length ?xs")
    case True
    then show ?thesis
      by (simp add: history_def shift_def S rotate_drop_take take_Suc_conv_app_nth)
  next
    case False
    with f have e: "Suc ?f = length ?xs" by simp
    then have "?xs[?f := v] = take ?f ?xs @ [v]"
      using f by (simp add: upd_conv_take_nth_drop)
    with e show ?thesis
      by (simp add: history_def shift_def S)
  qed
  with t show ?thesis by simp
qed

text \<open>
  Claim C4. For a buffer of fixed size \<open>S\<close> (its array has \<open>S\<close> entries and the index
  of the oldest sample lies inside it): \<open>shift v\<close> overwrites the entry at the
  oldest-sample index, which holds the oldest stored sample, with \<open>v\<close> and advances that
  index by one modulo \<open>S\<close>, so that the oldest sample is evicted and \<open>v\<close> becomes the
  newest; the \<open>i\<close>-th oldest sample is the entry \<open>(myFirstIndex + i) mod S\<close>; and
  \<open>convoluteWith kern\<close>, a function of the buffer that does not change it, returns the
  dot product of the first \<open>S\<close> entries of \<open>kern\<close> with the samples from the oldest to the
  newest, accumulated from \<open>i = 0\<close> upwards.
\<close>

theorem ConvolutionBuffer_shift_convoluteWith:
  assumes "buffer_ok b" and "mySize b \<le> length kern"
  shows "myData (shift v b) = (myData b)[myFirstIndex b := v] \<and>
         myFirstIndex (shift v b) = (myFirstIndex b + 1) mod mySize b \<and>
         mySize (shift v b) = mySize b \<and>
         buffer_ok (shift v b) \<and>
         hd (history b) = myData b ! myFirstIndex b \<and>
         history (shift v b) = tl (history b) @ [v] \<and>
         (\<forall>i<mySize b. history b ! i = myData b ! ((myFirstIndex b + i) mod mySize b)) \<and>
         convoluteWith kern b = dot kern (history b)"
proof -
  from assms(1) have pos: "0 < mySize b" and len: "length (history b) = mySize b"
    by (simp_all add: buffer_ok_def length_history)
  then have "history b \<noteq> []" by auto
  then have "hd (history b) = history b ! 0"
    by (simp add: hd_conv_nth)
  then have "hd (history b) = myData b ! myFirstIndex b"
    using history_nth [OF assms(1) pos] assms(1) by (simp add: buffer_ok_def)
  then show ?thesis
    using assms
    by (simp add: shift_ok history_shift history_nth convoluteWith_dot) (simp add: shift_def)
qed

theorem ConvolutionBuffer_shift_convoluteWith_witness:
  "buffer_ok \<lparr> myFirstIndex = 1, mySize = 3, myData = [10, 20, 30 :: int] \<rparr> \<and>
   history \<lparr> myFirstIndex = 1, mySize = 3, myData = [10, 20, 30 :: int] \<rparr> = [20, 30, 10] \<and>
   history (shift 7 \<lparr> myFirstIndex = 1, mySize = 3, myData = [10, 20, 30 :: int] \<rparr>) = [30, 10, 7] \<and>
   shift 7 \<lparr> myFirstIndex = 1, mySize = 3, myData = [10, 20, 30 :: int] \<rparr>
     = \<lparr> myFirstIndex = 2, mySize = 3, myData = [10, 7, 30] \<rparr> \<and>
   convoluteWith [1, 2, 3] \<lparr> myFirstIndex = 1, mySize = 3, myData = [10, 20, 30 :: int] \<rparr> = 110"
proof -
  let ?b = "\<lparr> myFirstIndex = 1, mySize = 3, myData = [10, 20, 30 :: int] \<rparr>"
  have ok: "buffer_ok ?b" by (simp add: buffer_ok_def)
  have h: "history ?b = [20, 30, 10]" by (simp add: history_def)
  have k: "mySize ?b \<le> length [1, 2, 3 :: int]" by simp
  from ConvolutionBuffer_shift_convoluteWith [OF ok k, of 7] h
  have "history (shift 7 ?b) = [30, 10, 7]" and "convoluteWith [1, 2, 3] ?b = 110"
    by (simp_all add: dot_def)
  with ok h show ?thesis by (simp add: shift_def)
qed

section \<open>The number of precomputed kernels\<close>

lemma reducedLoop_gcd:
  "0 < n \<Longrightarrow> 0 < d \<Longrightarrow> gcd n d = 1 \<or> gcd n d \<le> i \<Longrightarrow> reducedLoop n d i = d div gcd n d"
proof (induction n d i rule: reducedLoop.induct)
  case (1 n d i)
  let ?g = "gcd n d"
  have gpos: "0 < ?g" using "1.prems" by simp
  show ?case
  proof (cases "1 < i")
    case False
    with "1.prems" gpos have "?g = 1" by linarith
    moreover have "reducedLoop n d i = d"
      by (subst reducedLoop.simps) (simp only: False if_False)
    ultimately show ?thesis by simp
  next
    case i: True
    show ?thesis
    proof (cases "n mod i = 0 \<and> d mod i = 0")
      case hit: True
      then have dv: "i dvd n" "i dvd d" by auto
      then have "i dvd ?g" by simp
      then have "i \<le> ?g" using gpos by (simp add: dvd_imp_le)
      with "1.prems"(3) i have g: "?g = i" by linarith
      have n': "0 < n div i" using dv(1) "1.prems"(1) i
        by (simp add: div_greater_zero_iff dvd_imp_le)
      have d': "0 < d div i" using dv(2) "1.prems"(2) i
        by (simp add: div_greater_zero_iff dvd_imp_le)
      have co: "gcd (n div i) (d div i) = 1"
        using div_gcd_coprime [of n d] "1.prems"(1) g by (simp add: coprime_imp_gcd_eq_1)
      have "reducedLoop (n div i) (d div i) (min (n div i) (d div i) - 1)
              = (d div i) div gcd (n div i) (d div i)"
        using "1.IH"(1) [OF i hit n' d'] co by simp
      moreover have "reducedLoop n d i =
          reducedLoop (n div i) (d div i) (min (n div i) (d div i) - 1)"
        by (subst reducedLoop.simps) (simp only: i hit if_True simp_thms)
      ultimately show ?thesis using co g by simp
    next
      case miss: False
      have "?g \<noteq> i" using miss by (metis gcd_dvd1 gcd_dvd2 dvd_eq_mod_eq_0)
      with "1.prems"(3) have "?g = 1 \<or> ?g \<le> i - 1" by linarith
      from "1.IH"(2) [OF i miss "1.prems"(1,2) this]
      have "reducedLoop n d (i - 1) = d div ?g" .
      moreover have "reducedLoop n d i = reducedLoop n d (i - 1)"
        by (subst reducedLoop.simps) (simp only: i miss if_True if_False)
      ultimately show ?thesis by simp
    qed
  qed
qed


lemma reducedDenominator_gcd:
  assumes "0 < n" "0 < d"
  shows "reducedDenominator n d = d div gcd n d"
proof -
  have "gcd n d \<le> n" "gcd n d \<le> d" using assms by (simp_all add: dvd_imp_le)
  then have "gcd n d = 1 \<or> gcd n d \<le> min n d" by simp
  with assms show ?thesis unfolding reducedDenominator_def by (rule reducedLoop_gcd)
qed

text \<open>
  Claim C5. For all positive sample rates \<open>Fs\<close> of the source format and \<open>Ft\<close> of the
  target format, \<open>reducedDenominator Fs Ft\<close> is \<open>Ft\<close> divided by \<open>gcd Fs Ft\<close>, and
  the constructor's \<open>myPrecomputedKernelCount\<close> is that number: the denominator of the
  fraction \<open>Fs / Ft\<close> in lowest terms.
\<close>

theorem myPrecomputedKernelCount_reduced:
  assumes "0 < sampleRate formatFrom" and "0 < sampleRate formatTo"
  shows "reducedDenominator (sampleRate formatFrom) (sampleRate formatTo) =
           sampleRate formatTo div gcd (sampleRate formatFrom) (sampleRate formatTo) \<and>
         myPrecomputedKernelCount
             (LanczosResampler_new E formatFrom formatTo callback kernelParameter) =
           sampleRate formatTo div gcd (sampleRate formatFrom) (sampleRate formatTo) \<and>
         int (myPrecomputedKernelCount
             (LanczosResampler_new E formatFrom formatTo callback kernelParameter)) =
           snd (quotient_of (Fract (int (sampleRate formatFrom)) (int (sampleRate formatTo))))"
  using assms
  by (simp add: reducedDenominator_gcd LanczosResampler_new_def Let_def quotient_of_Fract
        Rat.normalize_def zdiv_int)

theorem myPrecomputedKernelCount_reduced_witness:
  "(0::nat) < 31400 \<and> (0::nat) < 44100 \<and>
   reducedDenominator 31400 44100 = 441 \<and>
   myPrecomputedKernelCount
     (LanczosResampler_new exampleEnv
        \<lparr> sampleRate = 31400, fragmentSize = 512, stereo = False \<rparr>
        \<lparr> sampleRate = 44100, fragmentSize = 512, stereo = True \<rparr> exampleCallback 2) = 441"
proof -
  have g: "gcd (31400 :: nat) 44100 = 100" by (simp add: gcd_non_0_nat)
  show ?thesis
    using myPrecomputedKernelCount_reduced
      [of "\<lparr> sampleRate = 31400, fragmentSize = 512, stereo = False \<rparr>"
          "\<lparr> sampleRate = 44100, fragmentSize = 512, stereo = True \<rparr>"
          exampleEnv exampleCallback 2]
    by (simp add: g)
qed

section \<open>LanczosResampler: what fillFragment writes\<close>












lemma shiftStep_static:
  "myFormatFrom (shiftStep E r) = myFormatFrom r"
  "myFormatTo (shiftStep E r) = myFormatTo r"
  "myPrecomputedKernelCount (shiftStep E r) = myPrecomputedKernelCount r"
  "myKernelSize (shiftStep E r) = myKernelSize r"
  "myPrecomputedKernels (shiftStep E r) = myPrecomputedKernels r"
  "myCurrentKernelIndex (shiftStep E r) = myCurrentKernelIndex r"
  "myTimeIndex (shiftStep E r) = myTimeIndex r"
  "myNextFragmentCallback (shiftStep E r) = myNextFragmentCallback r"
  by (simp_all add: shiftStep_def nextFragment_def Let_def split: prod.splits option.splits)





lemma shiftSamples_static:
  "myFormatFrom (shiftSamples E n r) = myFormatFrom r \<and>
   myFormatTo (shiftSamples E n r) = myFormatTo r \<and>
   myPrecomputedKernelCount (shiftSamples E n r) = myPrecomputedKernelCount r \<and>
   myKernelSize (shiftSamples E n r) = myKernelSize r \<and>
   myPrecomputedKernels (shiftSamples E n r) = myPrecomputedKernels r \<and>
   myCurrentKernelIndex (shiftSamples E n r) = myCurrentKernelIndex r \<and>
   myTimeIndex (shiftSamples E n r) = myTimeIndex r \<and>
   myNextFragmentCallback (shiftSamples E n r) = myNextFragmentCallback r"
  by (induction n arbitrary: r) (simp_all add: shiftStep_static)












section \<open>Console: snapshots and autodetection\<close>

lemma updateLoop_funpow: "updateLoop W n i cd = (TIA_update W ^^ nat (n - i)) cd"
proof (induction W n i cd rule: updateLoop.induct)
  case (1 W n i cd)
  show ?case
  proof (cases "i < n")
    case True
    then have "nat (n - i) = Suc (nat (n - (i + 1)))" by simp
    with True "1.IH" show ?thesis
      by (subst updateLoop.simps) (simp add: funpow_swap1)
  next
    case False
    then show ?thesis by (subst updateLoop.simps) simp
  qed
qed

lemma machine_setMachine [simp]: "machine (setMachine m c) = m"
  by (cases m) (simp add: machine_def setMachine_def)

lemma setMachine_fields [simp]:
  "tiaFrameManager (setMachine m c) = tiaFrameManager c"
  "fastscbios (setMachine m c) = fastscbios c"
  "myFrameManager (setMachine m c) = myFrameManager c"
  "myDisplayFormat (setMachine m c) = myDisplayFormat c"
  "myAutodetectedYstart (setMachine m c) = myAutodetectedYstart c"
  "myYStartAutodetected (setMachine m c) = myYStartAutodetected c"
  by (cases m; simp add: setMachine_def)+

lemma setMachine_twice [simp]: "setMachine m (setMachine m' c) = setMachine m c"
  by (cases m; cases m') (simp add: setMachine_def)

lemma setMachine_machine [simp]: "setMachine (machine c) c = c"
  by (simp add: setMachine_def machine_def)

lemma machine_update [simp]:
  "machine (c\<lparr> fastscbios := a \<rparr>) = machine c"
  "machine (c\<lparr> tiaFrameManager := b \<rparr>) = machine c"
  "machine (c\<lparr> myDisplayFormat := d \<rparr>) = machine c"
  "machine (c\<lparr> myAutodetectedYstart := e \<rparr>) = machine c"
  "machine (c\<lparr> myYStartAutodetected := f \<rparr>) = machine c"
  "machine (c\<lparr> soundOpen := g \<rparr>) = machine c"
  "machine (c\<lparr> audioQueues := h \<rparr>) = machine c"
  "machine (c\<lparr> consoleCerr := i \<rparr>) = machine c"
  by (simp_all add: machine_def)

lemma TIA_update_local:
  "tiaFrameManager c \<noteq> MyFrameManager \<Longrightarrow>
   (TIA_update W ^^ k) (c, det) =
     (setMachine (fst (frames W (fastscbios c) k (machine c, det))) c,
      snd (frames W (fastscbios c) k (machine c, det)))"
proof (induction k)
  case 0
  then show ?case by (simp add: frames_def)
next
  case (Suc k)
  then show ?case
    by (cases "tiaFrameManager c")
       (simp_all add: frames_def TIA_update_def split: prod.splits)
qed

lemma updateLoop_local:
  "tiaFrameManager c \<noteq> MyFrameManager \<Longrightarrow>
   updateLoop W (int k) 0 (c, det) =
     (setMachine (fst (frames W (fastscbios c) k (machine c, det))) c,
      snd (frames W (fastscbios c) k (machine c, det)))"
  by (simp add: updateLoop_funpow TIA_update_local)

lemma runFrameLayoutDetector_frames:
  "runFrameLayoutDetector W reset c =
     (let c2 = c\<lparr> fastscbios := True, tiaFrameManager := LocalFrameLayoutDetector \<rparr>;
          md = frames W True 60
                 (if reset then systemReset W True True (machine c) else machine c,
                  newFrameLayoutDetector W)
      in (setMachine (fst md) c2, snd md))"
proof -
  have "updateLoop W 60 0 (c', d) =
     (setMachine (fst (frames W (fastscbios c') 60 (machine c', d))) c',
      snd (frames W (fastscbios c') 60 (machine c', d)))"
    if "tiaFrameManager c' \<noteq> MyFrameManager" for c' d
    using updateLoop_local [OF that, where W=W and k=60 and det=d] by simp
  then show ?thesis
    by (simp add: runFrameLayoutDetector_def Let_def)
qed

lemma runYStartDetector_frames:
  "runYStartDetector W reset c =
     (let c2 = c\<lparr> fastscbios := True, tiaFrameManager := LocalYStartDetector \<rparr>;
          md = frames W True 80
                 (if reset then systemReset W True True (machine c) else machine c,
                  setLayout W (if myDisplayFormat c = ''PAL'' then pal else ntsc) (newYStartDetector W))
      in (setMachine (fst md) c2, snd md))"
proof -
  have "updateLoop W 80 0 (c', d) =
     (setMachine (fst (frames W (fastscbios c') 80 (machine c', d))) c',
      snd (frames W (fastscbios c') 80 (machine c', d)))"
    if "tiaFrameManager c' \<noteq> MyFrameManager" for c' d
    using updateLoop_local [OF that, where W=W and k=80 and det=d] by simp
  then show ?thesis
    by (simp add: runYStartDetector_def Let_def)
qed

lemma Console_save_roundTrips:
  assumes "roundTrips es (systemSave W) (systemLoad W)"
    and "roundTrips ec (controllerSave W) (controllerLoad W)"
    and "roundTrips ew (switchesSave W) (switchesLoad W)"
  shows "Console_save W out c =
           (True, out @ es (mySystem c) @ ec (myLeftControl c) @ ec (myRightControl c)
                    @ ew (mySwitches c), c)"
  using assms by (simp add: Console_save_def roundTrips_def)

lemma Console_load_roundTrips:
  assumes "roundTrips es (systemSave W) (systemLoad W)"
    and "roundTrips ec (controllerSave W) (controllerLoad W)"
    and "roundTrips ew (switchesSave W) (switchesLoad W)"
  shows "Console_load W (es s @ ec l @ ec r @ ew w @ rest) c' =
           (True, rest, setMachine (s, l, r, w) c')"
  using assms by (simp add: Console_load_def roundTrips_def setMachine_def)

lemma snapshot_exists:
  assumes "serializable W"
  shows "\<exists>enc. (\<forall>c out. Console_save W out c = (True, out @ enc (machine c), c)) \<and>
               (\<forall>m rest c'. Console_load W (enc m @ rest) c' = (True, rest, setMachine m c'))"
proof -
  from assms obtain es ec ew where rt:
    "roundTrips es (systemSave W) (systemLoad W)"
    "roundTrips ec (controllerSave W) (controllerLoad W)"
    "roundTrips ew (switchesSave W) (switchesLoad W)"
    by (auto simp: serializable_def)
  let ?enc = "\<lambda>(s, l, r, w). es s @ ec l @ ec r @ ew w"
  have "\<forall>c out. Console_save W out c = (True, out @ ?enc (machine c), c)"
    by (simp add: Console_save_roundTrips [OF rt] machine_def)
  moreover have "\<forall>m rest c'. Console_load W (?enc m @ rest) c' = (True, rest, setMachine m c')"
    using Console_load_roundTrips [OF rt] by auto
  ultimately show ?thesis by blast
qed

lemma autodetectFrameLayout_fields:
  "machine (autodetectFrameLayout W reset c) =
     fst (frames W True 60
           (if reset then systemReset W True True (machine c) else machine c,
            newFrameLayoutDetector W))"
  "tiaFrameManager (autodetectFrameLayout W reset c) = MyFrameManager"
  "myFrameManager (autodetectFrameLayout W reset c) = myFrameManager c"
  "fastscbios (autodetectFrameLayout W reset c) = fastscbios c"
  by (simp_all add: autodetectFrameLayout_def runFrameLayoutDetector_frames Let_def)

lemma autodetectYStart_fields:
  "machine (autodetectYStart W reset c) =
     fst (frames W True 80
           (if reset then systemReset W True True (machine c) else machine c,
            setLayout W (if myDisplayFormat c = ''PAL'' then pal else ntsc) (newYStartDetector W)))"
  "tiaFrameManager (autodetectYStart W reset c) = MyFrameManager"
  "myFrameManager (autodetectYStart W reset c) = myFrameManager c"
  "fastscbios (autodetectYStart W reset c) = fastscbios c"
  by (simp_all add: autodetectYStart_def runYStartDetector_frames Let_def)

lemma autodetectYStart_ystart:
  "myAutodetectedYstart (autodetectYStart W reset c) =
     detectedYStart W (snd (runYStartDetector W reset c)) - 2"
  "myYStartAutodetected (autodetectYStart W reset c)"
  by (cases "runYStartDetector W reset c"; simp add: autodetectYStart_def Let_def YSTART_EXTRA_def)+

lemma Console_load_fields:
  "tiaFrameManager (snd (snd (Console_load W z c))) = tiaFrameManager c"
  "myFrameManager (snd (snd (Console_load W z c))) = myFrameManager c"
  "fastscbios (snd (snd (Console_load W z c))) = fastscbios c"
  "myAutodetectedYstart (snd (snd (Console_load W z c))) = myAutodetectedYstart c"
  "myYStartAutodetected (snd (snd (Console_load W z c))) = myYStartAutodetected c"
  "myDisplayFormat (snd (snd (Console_load W z c))) = myDisplayFormat c"
  by (simp_all add: Console_load_def Let_def split: prod.splits outcome.splits bool.splits)

lemma Console_save_fields:
  "tiaFrameManager (snd (snd (Console_save W z c))) = tiaFrameManager c"
  "myFrameManager (snd (snd (Console_save W z c))) = myFrameManager c"
  "fastscbios (snd (snd (Console_save W z c))) = fastscbios c"
  "machine (snd (snd (Console_save W z c))) = machine c"
  by (simp_all add: Console_save_def Let_def split: prod.splits outcome.splits bool.splits)

lemma initializeAudio_fields [simp]:
  "machine (initializeAudio c) = machine c"
  "tiaFrameManager (initializeAudio c) = tiaFrameManager c"
  "myFrameManager (initializeAudio c) = myFrameManager c"
  "fastscbios (initializeAudio c) = fastscbios c"
  "myAutodetectedYstart (initializeAudio c) = myAutodetectedYstart c"
  "myYStartAutodetected (initializeAudio c) = myYStartAutodetected c"
  "myDisplayFormat (initializeAudio c) = myDisplayFormat c"
  by (simp_all add: initializeAudio_def machine_def)

lemma redetectYStart_unfold:
  "redetectYStart W c =
     initializeAudio (snd (snd (Console_load W
        (fst (snd (Console_save W [] (c\<lparr> soundOpen := False \<rparr>))))
        (autodetectYStart W False (snd (snd (Console_save W [] (c\<lparr> soundOpen := False \<rparr>))))))))"
  by (simp add: redetectYStart_def Let_def split: prod.splits)



lemma setMachine_audio [simp]:
  "audioQueues (setMachine m c) = audioQueues c"
  "soundOpen (setMachine m c) = soundOpen c"
  by (cases m; simp add: setMachine_def)+







lemma serializable_example: "serializable exampleWorld"
proof -
  have "roundTrips (\<lambda>b. [b]) byteSave byteLoad"
    by (simp add: roundTrips_def byteSave_def byteLoad_def)
  then show ?thesis unfolding serializable_def exampleWorld_def by auto
qed

text \<open>
  Claim C2, as stated: \<open>save\<close> followed by \<open>load\<close> restores a state equal to the saved
  one, frame layout included. It does not: a console saved as NTSC and since set to PAL
  is still PAL after loading the snapshot, because \<open>myDisplayFormat\<close> is not part of what
  \<open>Console::save\<close> writes or \<open>Console::load\<close> reads.
\<close>

theorem Console_load_keeps_format_counterexample:
  "Console_save exampleWorld [] exampleConsole = (True, [7, 1, 2, 3], exampleConsole) \<and>
   Console_load exampleWorld [7, 1, 2, 3] (exampleConsole\<lparr> myDisplayFormat := ''PAL'' \<rparr>)
     = (True, [], exampleConsole\<lparr> myDisplayFormat := ''PAL'' \<rparr>) \<and>
   exampleConsole\<lparr> myDisplayFormat := ''PAL'' \<rparr> \<noteq> exampleConsole"
  by (simp add: Console_save_def Console_load_def exampleWorld_def exampleConsole_def
        byteSave_def byteLoad_def)

text \<open>
  Claim C2, amended. When the \<open>save\<close> and \<open>load\<close> of the system, the controllers and
  the switches round-trip, \<open>Console::save\<close> into a new serializer succeeds and leaves the
  console as it is, and \<open>Console::load\<close> of what was written, into the console in whatever
  state \<open>c'\<close> it then is, succeeds, consumes the snapshot and restores the system, the two
  controllers and the switches to the saved ones. Every other field of the console (the
  display format, the autodetected Y start among them) is left as it is in \<open>c'\<close>.
\<close>

theorem Console_save_load_round_trip:
  assumes "serializable W"
  shows "\<exists>s. Console_save W [] c = (True, s, c) \<and>
             (\<forall>c'. Console_load W s c' = (True, [], setMachine (machine c) c'))"
proof -
  from snapshot_exists [OF assms] obtain enc where
    sv: "\<And>c out. Console_save W out c = (True, out @ enc (machine c), c)" and
    ld: "\<And>m rest c'. Console_load W (enc m @ rest) c' = (True, rest, setMachine m c')"
    by blast
  have "Console_load W (enc (machine c)) c' = (True, [], setMachine (machine c) c')" for c'
    using ld [of "machine c" "[]" c'] by simp
  with sv [of "[]" c] show ?thesis by simp
qed

theorem Console_save_load_round_trip_witness:
  "serializable exampleWorld \<and>
   (\<exists>s. Console_save exampleWorld [] exampleConsole = (True, s, exampleConsole) \<and>
        (\<forall>c'. Console_load exampleWorld s c' = (True, [], setMachine (machine exampleConsole) c')))"
  using Console_save_load_round_trip [OF serializable_example, of exampleConsole]
    serializable_example by simp

text \<open>
  Claim C3, as stated: whenever \<open>load\<close> returns \<open>false\<close> the console is unchanged. It
  is not: from a snapshot that ends after the system's part, the system is restored, the
  left controller's \<open>load\<close> fails, \<open>load\<close> returns \<open>false\<close>, and the system keeps the
  snapshot's state.
\<close>

theorem Console_load_partial_counterexample:
  "Console_load exampleWorld [9] exampleConsole = (False, [], exampleConsole\<lparr> mySystem := 9 \<rparr>) \<and>
   exampleConsole\<lparr> mySystem := 9 \<rparr> \<noteq> exampleConsole"
  by (simp add: Console_load_def exampleWorld_def exampleConsole_def byteLoad_def)

text \<open>
  Claim C3, amended. Let the four component loads, each from where the one before left
  the serializer, have the outcomes \<open>o1\<close> to \<open>o4\<close> and the resulting states \<open>s\<close>, \<open>l\<close>,
  \<open>r\<close>, \<open>w\<close>. \<open>Console::load\<close> returns \<open>true\<close> exactly when all four return \<open>true\<close>,
  and \<open>false\<close> when one returns \<open>false\<close> or throws. Nothing is rolled back: the
  components up to and including the first that fails hold what their \<open>load\<close> made of
  them, the components after it are untouched, and no other field of the console changes
  (but for the line on \<open>cerr\<close> after an exception).
\<close>

theorem Console_load_result:
  assumes "systemLoad W in' (mySystem c) = (o1, s, in1)"
    and "controllerLoad W in1 (myLeftControl c) = (o2, l, in2)"
    and "controllerLoad W in2 (myRightControl c) = (o3, r, in3)"
    and "switchesLoad W in3 (mySwitches c) = (o4, w, in4)"
    and "Console_load W in' c = (ok, rest, c')"
  shows "ok = (o1 = Returned True \<and> o2 = Returned True \<and> o3 = Returned True \<and> o4 = Returned True) \<and>
         machine c' =
           (if o1 \<noteq> Returned True then (s, myLeftControl c, myRightControl c, mySwitches c)
            else if o2 \<noteq> Returned True then (s, l, myRightControl c, mySwitches c)
            else if o3 \<noteq> Returned True then (s, l, r, mySwitches c)
            else (s, l, r, w)) \<and>
         setMachine (machine c) (c'\<lparr> consoleCerr := consoleCerr c \<rparr>) = c"
  using assms
  by (auto simp add: Console_load_def Let_def machine_def setMachine_def
        split: outcome.splits bool.splits)

theorem Console_load_result_witness:
  "systemLoad exampleWorld [9] (mySystem exampleConsole) = (Returned True, 9, []) \<and>
   controllerLoad exampleWorld [] (myLeftControl exampleConsole) = (Returned False, 1, []) \<and>
   controllerLoad exampleWorld [] (myRightControl exampleConsole) = (Returned False, 2, []) \<and>
   switchesLoad exampleWorld [] (mySwitches exampleConsole) = (Returned False, 3, []) \<and>
   Console_load exampleWorld [9] exampleConsole = (False, [], exampleConsole\<lparr> mySystem := 9 \<rparr>) \<and>
   machine (exampleConsole\<lparr> mySystem := 9 \<rparr>) = (9, 1, 2, 3)"
proof -
  have 1: "systemLoad exampleWorld [9] (mySystem exampleConsole) = (Returned True, 9, [])"
    and 2: "controllerLoad exampleWorld [] (myLeftControl exampleConsole) = (Returned False, 1, [])"
    and 3: "controllerLoad exampleWorld [] (myRightControl exampleConsole) = (Returned False, 2, [])"
    and 4: "switchesLoad exampleWorld [] (mySwitches exampleConsole) = (Returned False, 3, [])"
    by (simp_all add: exampleWorld_def exampleConsole_def byteLoad_def)
  have 5: "Console_load exampleWorld [9] exampleConsole
             = (False, [], exampleConsole\<lparr> mySystem := 9 \<rparr>)"
    by (simp add: Console_load_def exampleWorld_def exampleConsole_def byteLoad_def)
  from Console_load_result [OF 1 2 3 4 5]
  have "machine (exampleConsole\<lparr> mySystem := 9 \<rparr>) = (9, 1, 2, 3)"
    by (simp add: exampleConsole_def)
  with 1 2 3 4 5 show ?thesis by simp
qed

text \<open>
  Claim C6. \<open>autodetectFrameLayout\<close> runs the machine for exactly 60 frame updates, all
  of them on a new \<open>FrameLayoutDetector\<close> (after the reset, when one is asked for), and
  \<open>autodetectYStart\<close> for exactly 80 on a new \<open>YStartDetector\<close> that was given the
  layout; when they return, the TIA points to the console's own \<open>FrameManager\<close> again,
  which no update has touched, and the detector is gone with the function's locals.
\<close>

theorem autodetect_runs_bounded:
  "machine (autodetectFrameLayout W reset c) =
     fst (frames W True 60
           (if reset then systemReset W True True (machine c) else machine c,
            newFrameLayoutDetector W)) \<and>
   tiaFrameManager (autodetectFrameLayout W reset c) = MyFrameManager \<and>
   myFrameManager (autodetectFrameLayout W reset c) = myFrameManager c \<and>
   machine (autodetectYStart W reset c) =
     fst (frames W True 80
           (if reset then systemReset W True True (machine c) else machine c,
            setLayout W (if myDisplayFormat c = ''PAL'' then pal else ntsc) (newYStartDetector W))) \<and>
   tiaFrameManager (autodetectYStart W reset c) = MyFrameManager \<and>
   myFrameManager (autodetectYStart W reset c) = myFrameManager c"
  by (simp add: autodetectFrameLayout_fields autodetectYStart_fields)

text \<open>
  Claim C7. After \<open>autodetectFrameLayout\<close> the display format is \<open>PAL\<close> exactly when
  the detector, after its 60 frames, reports the PAL layout, and \<open>NTSC\<close> in every other
  case; the function always returns a console, with no error value.
\<close>

theorem autodetectFrameLayout_format:
  "myDisplayFormat (autodetectFrameLayout W reset c) =
     (if detectedLayout W (snd (runFrameLayoutDetector W reset c)) = pal then ''PAL'' else ''NTSC'') \<and>
   (myDisplayFormat (autodetectFrameLayout W reset c) = ''PAL'') =
     (detectedLayout W (snd (runFrameLayoutDetector W reset c)) = pal) \<and>
   (myDisplayFormat (autodetectFrameLayout W reset c) = ''NTSC'') =
     (detectedLayout W (snd (runFrameLayoutDetector W reset c)) = ntsc) \<and>
   snd (runFrameLayoutDetector W reset c) =
     snd (frames W True 60
           (if reset then systemReset W True True (machine c) else machine c,
            newFrameLayoutDetector W))"
  by (cases "detectedLayout W (snd (runFrameLayoutDetector W reset c))";
      cases "runFrameLayoutDetector W reset c")
     (simp_all add: autodetectFrameLayout_def Let_def runFrameLayoutDetector_frames)

text \<open>
  Claim C10. After \<open>autodetectYStart\<close>, \<open>myAutodetectedYstart\<close> is the Y start that the
  detector reports after its frames minus \<open>YSTART_EXTRA = 2\<close> (in \<open>uInt32\<close>, so a
  reported 0 or 1 wraps around), and \<open>myYStartAutodetected\<close> is set; the same holds after
  \<open>redetectYStart\<close>, whose \<open>load\<close> does not touch the two fields.
\<close>

theorem autodetectYStart_offset:
  "myAutodetectedYstart (autodetectYStart W reset c) =
     detectedYStart W (snd (runYStartDetector W reset c)) - 2 \<and>
   myYStartAutodetected (autodetectYStart W reset c) \<and>
   myAutodetectedYstart (redetectYStart W c) =
     detectedYStart W (snd (runYStartDetector W False
        (snd (snd (Console_save W [] (c\<lparr> soundOpen := False \<rparr>)))))) - 2 \<and>
   myYStartAutodetected (redetectYStart W c) \<and>
   ucast YSTART_EXTRA = (2 :: 32 word)"
  by (simp add: autodetectYStart_ystart redetectYStart_unfold Console_load_fields YSTART_EXTRA_def)




section \<open>Console: the user palette\<close>

lemma pixelOf_rgb:
  assumes "k + 2 < length bytes"
  shows "unat (pixelOf (take 3 (drop k bytes))) = rgb bytes k"
proof -
  have b: "unat (bytes ! k) < 256" "unat (bytes ! (k + 1)) < 256" "unat (bytes ! (k + 2)) < 256"
    using unsigned_less [of "bytes ! k", where 'a=nat]
      unsigned_less [of "bytes ! (k + 1)", where 'a=nat]
      unsigned_less [of "bytes ! (k + 2)", where 'a=nat]
    by simp_all
  have u: "unat (ucast x :: 32 word) = unat x" for x :: "8 word"
    using unsigned_less [of x, where 'a=nat]
    by (simp add: unsigned_ucast_eq take_bit_nat_eq_self)
  have "unat (push_bit 16 (ucast (bytes ! k)) + push_bit 8 (ucast (bytes ! (k + 1)))
           + ucast (bytes ! (k + 2)) :: 32 word)
        = 65536 * unat (bytes ! k) + 256 * unat (bytes ! (k + 1)) + unat (bytes ! (k + 2))"
    using b by (simp add: push_bit_eq_mult unat_word_ariths u)
  then show ?thesis using assms by (simp add: pixelOf_def rgb_def add.commute)
qed


lemma readPalette_spec:
  "i \<le> 128 \<Longrightarrow>
   fst (readPalette i (in', table)) = drop (3 * (128 - i)) in' \<and>
   length (snd (readPalette i (in', table))) = length table \<and>
   (\<forall>j. i \<le> j \<and> j < 128 \<and> 2 * j < length table \<longrightarrow>
      snd (readPalette i (in', table)) ! (2 * j) = pixelOf (take 3 (drop (3 * (j - i)) in'))) \<and>
   (\<forall>k. odd k \<or> k < 2 * i \<longrightarrow> snd (readPalette i (in', table)) ! k = table ! k)"
proof (induction "128 - i" arbitrary: i in' table)
  case 0
  then have "i = 128" by simp
  then show ?case by (auto simp add: readPalette.simps [of 128])
next
  case (Suc n)
  then have lt: "i < 128" and n: "n = 128 - (i + 1)" and le: "i + 1 \<le> 128" by simp_all
  let ?p = "pixelOf (take 3 in')"
  let ?t = "table[2 * i := ?p]"
  let ?r = "readPalette (i + 1) (drop 3 in', ?t)"
  have unf: "readPalette i (in', table) = ?r"
    using lt by (simp add: readPalette.simps [of i] push_bit_eq_mult mult.commute)
  note IH = Suc.hyps(1) [OF n le, of "drop 3 in'" ?t]
  have d: "3 * (128 - (i + 1)) + 3 = 3 * (128 - i)" using lt by simp
  show ?case unfolding unf
  proof (intro conjI allI impI)
    show "fst ?r = drop (3 * (128 - i)) in'" using IH d by simp
    show "length (snd ?r) = length table" using IH by simp
  next
    fix j assume j: "i \<le> j \<and> j < 128 \<and> 2 * j < length table"
    show "snd ?r ! (2 * j) = pixelOf (take 3 (drop (3 * (j - i)) in'))"
    proof (cases "j = i")
      case True
      have "snd ?r ! (2 * i) = ?t ! (2 * i)" using IH by simp
      with True j show ?thesis by simp
    next
      case False
      with j have j': "i + 1 \<le> j \<and> j < 128 \<and> 2 * j < length ?t" by simp
      have e: "3 * (j - (i + 1)) + 3 = 3 * (j - i)" using j' by auto
      from IH j' have "snd ?r ! (2 * j) = pixelOf (take 3 (drop (3 * (j - (i + 1))) (drop 3 in')))"
        by blast
      then show ?thesis using e by simp
    qed
  next
    fix k assume k: "odd k \<or> k < 2 * i"
    then have "odd k \<or> k < 2 * (i + 1)" by auto
    with IH have "snd ?r ! k = ?t ! k" by blast
    moreover have "k \<noteq> 2 * i" using k by auto
    ultimately show "snd ?r ! k = table ! k" by simp
  qed
qed

lemma readSecam_spec:
  "i \<le> 8 \<Longrightarrow> length secam = 16 \<Longrightarrow>
   fst (readSecam i (in', secam)) = drop (3 * (8 - i)) in' \<and>
   length (snd (readSecam i (in', secam))) = 16 \<and>
   (\<forall>j. i \<le> j \<and> j < 8 \<longrightarrow>
      snd (readSecam i (in', secam)) ! (2 * j) = pixelOf (take 3 (drop (3 * (j - i)) in')) \<and>
      snd (readSecam i (in', secam)) ! (2 * j + 1) = 0) \<and>
   (\<forall>k. k < 2 * i \<longrightarrow> snd (readSecam i (in', secam)) ! k = secam ! k)"
proof (induction "8 - i" arbitrary: i in' secam)
  case 0
  then have "i = 8" by simp
  then show ?case using "0.prems" by (auto simp add: readSecam.simps [of 8])
next
  case (Suc n)
  then have lt: "i < 8" and n: "n = 8 - (i + 1)" and le: "i + 1 \<le> 8" by simp_all
  let ?p = "pixelOf (take 3 in')"
  let ?t = "secam[2 * i := ?p, 2 * i + 1 := 0]"
  let ?r = "readSecam (i + 1) (drop 3 in', ?t)"
  have unf: "readSecam i (in', secam) = ?r"
    using lt by (simp add: readSecam.simps [of i] push_bit_eq_mult mult.commute)
  have len: "length ?t = 16" using Suc.prems by simp
  note IH = Suc.hyps(1) [OF n le len, of "drop 3 in'"]
  have d: "3 * (8 - (i + 1)) + 3 = 3 * (8 - i)" using lt by simp
  show ?case unfolding unf
  proof (intro conjI allI impI)
    show "fst ?r = drop (3 * (8 - i)) in'" using IH d by simp
    show "length (snd ?r) = 16" using IH by simp
  next
    fix j assume j: "i \<le> j \<and> j < 8"
    show "snd ?r ! (2 * j) = pixelOf (take 3 (drop (3 * (j - i)) in'))"
    proof (cases "j = i")
      case True
      have "snd ?r ! (2 * i) = ?t ! (2 * i)" using IH by simp
      with True lt Suc.prems show ?thesis by simp
    next
      case False
      with j have j': "i + 1 \<le> j \<and> j < 8" by simp
      have e: "3 * (j - (i + 1)) + 3 = 3 * (j - i)" using j' by auto
      from IH j' have "snd ?r ! (2 * j) = pixelOf (take 3 (drop (3 * (j - (i + 1))) (drop 3 in')))"
        by blast
      then show ?thesis using e by simp
    qed
    show "snd ?r ! (2 * j + 1) = 0"
    proof (cases "j = i")
      case True
      have "snd ?r ! (2 * i + 1) = ?t ! (2 * i + 1)" using IH by simp
      with True lt Suc.prems show ?thesis by simp
    next
      case False
      with j have j': "i + 1 \<le> j \<and> j < 8" by simp
      with IH show ?thesis by blast
    qed
  next
    fix k assume k: "k < 2 * i"
    then have "k < 2 * (i + 1)" by auto
    with IH have "snd ?r ! k = ?t ! k" by blast
    with k show "snd ?r ! k = secam ! k" by simp
  qed
qed

lemma copySecamRow_spec:
  "j \<le> 16 \<Longrightarrow>
   fst (copySecamRow secam j (ptr, table)) = ptr + (16 - j) \<and>
   length (snd (copySecamRow secam j (ptr, table))) = length table \<and>
   (\<forall>k. snd (copySecamRow secam j (ptr, table)) ! k =
      (if ptr \<le> k \<and> k < ptr + (16 - j) \<and> k < length table then secam ! (j + (k - ptr)) else table ! k))"
proof (induction "16 - j" arbitrary: j ptr table)
  case 0
  then have "j = 16" by simp
  then show ?case by (auto simp add: copySecamRow.simps [of secam 16])
next
  case (Suc n)
  then have lt: "j < 16" and n: "n = 16 - (j + 1)" and le: "j + 1 \<le> 16" by simp_all
  let ?t = "table[ptr := secam ! j]"
  let ?r = "copySecamRow secam (j + 1) (ptr + 1, ?t)"
  have unf: "copySecamRow secam j (ptr, table) = ?r"
    using lt by (simp add: copySecamRow.simps [of secam j])
  note IH = Suc.hyps(1) [OF n le, of "ptr + 1" ?t]
  show ?case unfolding unf
  proof (intro conjI allI)
    show "fst ?r = ptr + (16 - j)" using IH lt by simp
    show "length (snd ?r) = length table" using IH by simp
  next
    fix k
    have *: "snd ?r ! k = (if ptr + 1 \<le> k \<and> k < ptr + 1 + (16 - (j + 1)) \<and> k < length ?t
                        then secam ! (j + 1 + (k - (ptr + 1))) else ?t ! k)"
      using IH by blast
    show "snd ?r ! k =
      (if ptr \<le> k \<and> k < ptr + (16 - j) \<and> k < length table then secam ! (j + (k - ptr)) else table ! k)"
    proof (cases "k = ptr")
      case True
      then show ?thesis using * lt by (cases "ptr < length table") (auto simp: list_update_beyond)
    next
      case False
      have "Suc ptr \<le> k \<Longrightarrow> j + 1 + (k - (ptr + 1)) = j + (k - ptr)" by simp
      with False * lt show ?thesis by (auto simp: nth_list_update)
    qed
  qed
qed


lemma copySecam_spec:
  "i \<le> 16 \<Longrightarrow> ptr + 16 * (16 - i) \<le> length table \<Longrightarrow>
   fst (copySecam secam i (ptr, table)) = ptr + 16 * (16 - i) \<and>
   length (snd (copySecam secam i (ptr, table))) = length table \<and>
   (\<forall>k. snd (copySecam secam i (ptr, table)) ! k =
      (if ptr \<le> k \<and> k < ptr + 16 * (16 - i) then secam ! ((k - ptr) mod 16) else table ! k))"
proof (induction "16 - i" arbitrary: i ptr table)
  case 0
  then have "i = 16" by simp
  then show ?case by (auto simp add: copySecam.simps [of secam 16])
next
  case (Suc n)
  then have lt: "i < 16" and n: "n = 16 - (i + 1)" and le: "i + 1 \<le> 16" by simp_all
  obtain p t where row: "copySecamRow secam 0 (ptr, table) = (p, t)"
    by (cases "copySecamRow secam 0 (ptr, table)")
  from copySecamRow_spec [of 0 secam ptr table] row
  have p: "p = ptr + 16" and lt': "length t = length table"
    and t: "\<And>k. t ! k = (if ptr \<le> k \<and> k < ptr + 16 \<and> k < length table
                          then secam ! (k - ptr) else table ! k)"
    by simp_all
  let ?r = "copySecam secam (i + 1) (ptr + 16, t)"
  have unf: "copySecam secam i (ptr, table) = ?r"
    using lt row p by (simp add: copySecam.simps [of secam i])
  have room: "ptr + 16 + 16 * (16 - (i + 1)) \<le> length t" using Suc.prems lt lt' by simp
  note IH = Suc.hyps(1) [OF n le room]
  have s: "ptr + 16 + 16 * (16 - (i + 1)) = ptr + 16 * (16 - i)" using lt by simp
  show ?case unfolding unf
  proof (intro conjI allI)
    show "fst ?r = ptr + 16 * (16 - i)" using IH s by simp
    show "length (snd ?r) = length table" using IH lt' by simp
  next
    fix k
    have r: "snd ?r ! k = (if ptr + 16 \<le> k \<and> k < ptr + 16 * (16 - i)
                        then secam ! ((k - (ptr + 16)) mod 16) else t ! k)"
      using IH s by simp
    show "snd ?r ! k =
      (if ptr \<le> k \<and> k < ptr + 16 * (16 - i) then secam ! ((k - ptr) mod 16) else table ! k)"
    proof (cases "ptr + 16 \<le> k")
      case True
      then have "(k - (ptr + 16)) mod 16 = (k - ptr) mod 16"
        by (metis add.commute diff_diff_left le_add_diff_inverse2 add_diff_cancel_left' mod_add_self2 le_diff_conv2 add_leE)
      with True r t [of k] show ?thesis by simp
    next
      case False
      with r t [of k] Suc.prems lt show ?thesis by auto
    qed
  qed
qed

lemma loadUserPalette_rejected:
  "f = None \<or> (\<exists>bytes. f = Some bytes \<and> length bytes < 792) \<Longrightarrow>
   ourUserNTSCPalette (loadUserPalette palette f c) = ourUserNTSCPalette c \<and>
   ourUserPALPalette (loadUserPalette palette f c) = ourUserPALPalette c \<and>
   ourUserSECAMPalette (loadUserPalette palette f c) = ourUserSECAMPalette c \<and>
   myUserPaletteDefined (loadUserPalette palette f c) = myUserPaletteDefined c"
  by (auto simp add: loadUserPalette_def)

lemma loadUserPalette_accepted:
  fixes c :: "('sys, 'ctl, 'sw, 'fm) Console" and palette :: string and bytes :: "8 word list"
  assumes len: "length (ourUserNTSCPalette c) = 256" "length (ourUserPALPalette c) = 256"
      "length (ourUserSECAMPalette c) = 256"
    and big: "792 \<le> length bytes"
  defines "c' \<equiv> loadUserPalette palette (Some bytes) c"
  shows "myUserPaletteDefined c'"
    and "length (ourUserNTSCPalette c') = 256 \<and> length (ourUserPALPalette c') = 256 \<and>
         length (ourUserSECAMPalette c') = 256"
    and "i < 128 \<Longrightarrow> unat (ourUserNTSCPalette c' ! (2 * i)) = rgb bytes (3 * i) \<and>
           ourUserNTSCPalette c' ! (2 * i + 1) = ourUserNTSCPalette c ! (2 * i + 1)"
    and "i < 128 \<Longrightarrow> unat (ourUserPALPalette c' ! (2 * i)) = rgb bytes (384 + 3 * i) \<and>
           ourUserPALPalette c' ! (2 * i + 1) = ourUserPALPalette c ! (2 * i + 1)"
    and "k < 16 \<Longrightarrow> j < 8 \<Longrightarrow>
           unat (ourUserSECAMPalette c' ! (16 * k + 2 * j)) = rgb bytes (768 + 3 * j) \<and>
           ourUserSECAMPalette c' ! (16 * k + 2 * j + 1) = 0"
proof -
  let ?n = "readPalette 0 (bytes, ourUserNTSCPalette c)"
  let ?p = "readPalette 0 (fst ?n, ourUserPALPalette c)"
  let ?s = "readSecam 0 (fst ?p, replicate 16 0)"
  let ?t = "copySecam (snd ?s) 0 (0, ourUserSECAMPalette c)"
  have c': "c' = c\<lparr> ourUserNTSCPalette := snd ?n, ourUserPALPalette := snd ?p,
                     ourUserSECAMPalette := snd ?t, myUserPaletteDefined := True \<rparr>"
    using big by (simp add: c'_def loadUserPalette_def split: prod.splits)
  note N = readPalette_spec [of 0 bytes "ourUserNTSCPalette c"]
  have in1: "fst ?n = drop 384 bytes" using N by simp
  note P = readPalette_spec [of 0 "drop 384 bytes" "ourUserPALPalette c"]
  have in2: "fst ?p = drop 768 bytes" using P in1 by simp
  note S = readSecam_spec [of 0 "replicate 16 0" "drop 768 bytes"]
  note T = copySecam_spec [of 0 0 "ourUserSECAMPalette c" "snd ?s"]
  show "myUserPaletteDefined c'" by (simp add: c')
  show "length (ourUserNTSCPalette c') = 256 \<and> length (ourUserPALPalette c') = 256 \<and>
         length (ourUserSECAMPalette c') = 256"
    using N P T len in1 by (simp add: c')
  show "unat (ourUserNTSCPalette c' ! (2 * i)) = rgb bytes (3 * i) \<and>
           ourUserNTSCPalette c' ! (2 * i + 1) = ourUserNTSCPalette c ! (2 * i + 1)" if "i < 128"
  proof -
    have "snd ?n ! (2 * i) = pixelOf (take 3 (drop (3 * i) bytes))"
      using N that len by simp
    moreover have "3 * i + 2 < length bytes" using that big by simp
    moreover have "snd ?n ! (2 * i + 1) = ourUserNTSCPalette c ! (2 * i + 1)"
      using N by simp
    ultimately show ?thesis by (simp add: c' pixelOf_rgb)
  qed
  show "unat (ourUserPALPalette c' ! (2 * i)) = rgb bytes (384 + 3 * i) \<and>
           ourUserPALPalette c' ! (2 * i + 1) = ourUserPALPalette c ! (2 * i + 1)" if "i < 128"
  proof -
    have "snd ?p ! (2 * i) = pixelOf (take 3 (drop (3 * i) (drop 384 bytes)))"
      using P that len in1 by simp
    then have "snd ?p ! (2 * i) = pixelOf (take 3 (drop (384 + 3 * i) bytes))"
      by (simp add: add.commute)
    moreover have "384 + 3 * i + 2 < length bytes" using that big by simp
    moreover have "snd ?p ! (2 * i + 1) = ourUserPALPalette c ! (2 * i + 1)"
      using P in1 by simp
    ultimately show ?thesis by (simp add: c' pixelOf_rgb)
  qed
  show "unat (ourUserSECAMPalette c' ! (16 * k + 2 * j)) = rgb bytes (768 + 3 * j) \<and>
           ourUserSECAMPalette c' ! (16 * k + 2 * j + 1) = 0" if "k < 16" "j < 8"
  proof -
    have s0: "snd ?s ! (2 * j) = pixelOf (take 3 (drop (3 * j) (drop 768 bytes)))"
      and s1: "snd ?s ! (2 * j + 1) = 0"
      using S that in2 by simp_all
    have s0': "snd ?s ! (2 * j) = pixelOf (take 3 (drop (768 + 3 * j) bytes))"
      using s0 by (simp add: add.commute)
    have b: "768 + 3 * j + 2 < length bytes" using that big by simp
    have m0: "(16 * k + 2 * j) mod 16 = 2 * j" and m1: "(16 * k + 2 * j + 1) mod 16 = 2 * j + 1"
      using that by simp_all
    have r: "16 * k + 2 * j < 256" "16 * k + 2 * j + 1 < 256" using that by simp_all
    have "snd ?t ! (16 * k + 2 * j) = snd ?s ! (2 * j)"
      using T len r(1) m0 by simp
    moreover have "snd ?t ! (16 * k + 2 * j + 1) = snd ?s ! (2 * j + 1)"
      using T len r(2) m1 by simp
    ultimately show ?thesis using s0' s1 b by (simp add: c' pixelOf_rgb)
  qed
qed

text \<open>
  Claim C8. With the three user palette tables of 256 entries each: if the palette file
  cannot be opened or holds fewer than 792 bytes, \<open>loadUserPalette\<close> leaves the three
  tables and \<open>myUserPaletteDefined\<close> as they are (\<open>false\<close> since the constructor); if
  it holds at least 792 bytes, \<open>myUserPaletteDefined\<close> is set and the tables are filled
  from consecutive triples of bytes, read as red, green, blue: the even entries of the
  NTSC table from the first 128 triples, those of the PAL table from the next 128 (the
  odd entries of both are left alone), and each of the 16 rows of 16 entries of the SECAM
  table from the last 8 triples at its even entries, with zero at its odd entries.
\<close>

theorem loadUserPalette_tables:
  fixes c :: "('sys, 'ctl, 'sw, 'fm) Console" and palette :: string
  assumes "length (ourUserNTSCPalette c) = 256" and "length (ourUserPALPalette c) = 256"
    and "length (ourUserSECAMPalette c) = 256"
  shows
    "(f = None \<or> (\<exists>bytes. f = Some bytes \<and> length bytes < 792) \<longrightarrow>
        ourUserNTSCPalette (loadUserPalette palette f c) = ourUserNTSCPalette c \<and>
        ourUserPALPalette (loadUserPalette palette f c) = ourUserPALPalette c \<and>
        ourUserSECAMPalette (loadUserPalette palette f c) = ourUserSECAMPalette c \<and>
        myUserPaletteDefined (loadUserPalette palette f c) = myUserPaletteDefined c) \<and>
     (\<forall>bytes. f = Some bytes \<and> 792 \<le> length bytes \<longrightarrow>
        myUserPaletteDefined (loadUserPalette palette f c) \<and>
        length (ourUserNTSCPalette (loadUserPalette palette f c)) = 256 \<and>
        length (ourUserPALPalette (loadUserPalette palette f c)) = 256 \<and>
        length (ourUserSECAMPalette (loadUserPalette palette f c)) = 256 \<and>
        (\<forall>i<128.
           unat (ourUserNTSCPalette (loadUserPalette palette f c) ! (2 * i)) = rgb bytes (3 * i) \<and>
           ourUserNTSCPalette (loadUserPalette palette f c) ! (2 * i + 1) =
             ourUserNTSCPalette c ! (2 * i + 1) \<and>
           unat (ourUserPALPalette (loadUserPalette palette f c) ! (2 * i)) =
             rgb bytes (384 + 3 * i) \<and>
           ourUserPALPalette (loadUserPalette palette f c) ! (2 * i + 1) =
             ourUserPALPalette c ! (2 * i + 1)) \<and>
        (\<forall>k<16. \<forall>j<8.
           unat (ourUserSECAMPalette (loadUserPalette palette f c) ! (16 * k + 2 * j)) =
             rgb bytes (768 + 3 * j) \<and>
           ourUserSECAMPalette (loadUserPalette palette f c) ! (16 * k + 2 * j + 1) = 0))"
proof -
  have rejected:
    "f = None \<or> (\<exists>bytes. f = Some bytes \<and> length bytes < 792) \<longrightarrow>
        ourUserNTSCPalette (loadUserPalette palette f c) = ourUserNTSCPalette c \<and>
        ourUserPALPalette (loadUserPalette palette f c) = ourUserPALPalette c \<and>
        ourUserSECAMPalette (loadUserPalette palette f c) = ourUserSECAMPalette c \<and>
        myUserPaletteDefined (loadUserPalette palette f c) = myUserPaletteDefined c"
    using loadUserPalette_rejected [where f = f and palette = palette and c = c] by blast
  have accepted:
    "myUserPaletteDefined (loadUserPalette palette f c) \<and>
        length (ourUserNTSCPalette (loadUserPalette palette f c)) = 256 \<and>
        length (ourUserPALPalette (loadUserPalette palette f c)) = 256 \<and>
        length (ourUserSECAMPalette (loadUserPalette palette f c)) = 256 \<and>
        (\<forall>i<128.
           unat (ourUserNTSCPalette (loadUserPalette palette f c) ! (2 * i)) = rgb bytes (3 * i) \<and>
           ourUserNTSCPalette (loadUserPalette palette f c) ! (2 * i + 1) =
             ourUserNTSCPalette c ! (2 * i + 1) \<and>
           unat (ourUserPALPalette (loadUserPalette palette f c) ! (2 * i)) =
             rgb bytes (384 + 3 * i) \<and>
           ourUserPALPalette (loadUserPalette palette f c) ! (2 * i + 1) =
             ourUserPALPalette c ! (2 * i + 1)) \<and>
        (\<forall>k<16. \<forall>j<8.
           unat (ourUserSECAMPalette (loadUserPalette palette f c) ! (16 * k + 2 * j)) =
             rgb bytes (768 + 3 * j) \<and>
           ourUserSECAMPalette (loadUserPalette palette f c) ! (16 * k + 2 * j + 1) = 0)"
    if "f = Some bytes \<and> 792 \<le> length bytes" for bytes
  proof -
    from that have f: "f = Some bytes" and big: "792 \<le> length bytes" by simp_all
    note acc = loadUserPalette_accepted [OF assms big, where palette = palette]
    show ?thesis unfolding f
    proof (intro conjI allI impI)
      fix i :: nat assume "i < 128"
      from acc(3) [OF this] acc(4) [OF this]
      show "unat (ourUserNTSCPalette (loadUserPalette palette (Some bytes) c) ! (2 * i)) =
              rgb bytes (3 * i)"
        and "ourUserNTSCPalette (loadUserPalette palette (Some bytes) c) ! (2 * i + 1) =
              ourUserNTSCPalette c ! (2 * i + 1)"
        and "unat (ourUserPALPalette (loadUserPalette palette (Some bytes) c) ! (2 * i)) =
              rgb bytes (384 + 3 * i)"
        and "ourUserPALPalette (loadUserPalette palette (Some bytes) c) ! (2 * i + 1) =
              ourUserPALPalette c ! (2 * i + 1)"
        by simp_all
    next
      fix k j :: nat assume "k < 16" "j < 8"
      from acc(5) [OF this]
      show "unat (ourUserSECAMPalette (loadUserPalette palette (Some bytes) c) ! (16 * k + 2 * j)) =
              rgb bytes (768 + 3 * j)"
        and "ourUserSECAMPalette (loadUserPalette palette (Some bytes) c) ! (16 * k + 2 * j + 1) = 0"
        by simp_all
    qed (use acc(1,2) in simp_all)
  qed
  from rejected accepted show ?thesis by blast
qed

theorem loadUserPalette_tables_witness:
  "length (ourUserNTSCPalette exampleConsole) = 256 \<and>
   length (ourUserPALPalette exampleConsole) = 256 \<and>
   length (ourUserSECAMPalette exampleConsole) = 256 \<and>
   ourUserNTSCPalette (loadUserPalette ''stella.pal'' None exampleConsole) = replicate 256 0 \<and>
   ourUserSECAMPalette (loadUserPalette ''stella.pal'' (Some (replicate 791 5)) exampleConsole)
     = replicate 256 0 \<and>
   myUserPaletteDefined (loadUserPalette ''stella.pal'' (Some (replicate 791 5)) exampleConsole)
     = False \<and>
   myUserPaletteDefined (loadUserPalette ''stella.pal'' (Some (replicate 792 5)) exampleConsole) \<and>
   unat (ourUserNTSCPalette
           (loadUserPalette ''stella.pal'' (Some (replicate 792 5)) exampleConsole) ! 6) = 328965 \<and>
   ourUserPALPalette
           (loadUserPalette ''stella.pal'' (Some (replicate 792 5)) exampleConsole) ! 7 = 0 \<and>
   unat (ourUserSECAMPalette
           (loadUserPalette ''stella.pal'' (Some (replicate 792 5)) exampleConsole) ! 38) = 328965 \<and>
   ourUserSECAMPalette
           (loadUserPalette ''stella.pal'' (Some (replicate 792 5)) exampleConsole) ! 39 = 0"
proof -
  have len: "length (ourUserNTSCPalette exampleConsole) = 256"
    "length (ourUserPALPalette exampleConsole) = 256"
    "length (ourUserSECAMPalette exampleConsole) = 256"
    by (simp_all add: exampleConsole_def)
  note none = loadUserPalette_tables [OF len, where f = None and palette = "''stella.pal''"]
  note short = loadUserPalette_tables
    [OF len, where f = "Some (replicate 791 5)" and palette = "''stella.pal''"]
  note full = loadUserPalette_tables
    [OF len, where f = "Some (replicate 792 5)" and palette = "''stella.pal''"]
  have tables: "ourUserNTSCPalette exampleConsole = replicate 256 0"
    "ourUserPALPalette exampleConsole = replicate 256 0"
    "ourUserSECAMPalette exampleConsole = replicate 256 0"
    "myUserPaletteDefined exampleConsole = False"
    by (simp_all add: exampleConsole_def)
  from full have f:
    "myUserPaletteDefined (loadUserPalette ''stella.pal'' (Some (replicate 792 5)) exampleConsole)"
    "\<And>i. i < 128 \<Longrightarrow>
       unat (ourUserNTSCPalette
         (loadUserPalette ''stella.pal'' (Some (replicate 792 5)) exampleConsole) ! (2 * i))
       = rgb (replicate 792 5) (3 * i)"
    "\<And>i. i < 128 \<Longrightarrow>
       ourUserPALPalette
         (loadUserPalette ''stella.pal'' (Some (replicate 792 5)) exampleConsole) ! (2 * i + 1)
       = ourUserPALPalette exampleConsole ! (2 * i + 1)"
    "\<And>k j. k < 16 \<Longrightarrow> j < 8 \<Longrightarrow>
       unat (ourUserSECAMPalette
         (loadUserPalette ''stella.pal'' (Some (replicate 792 5)) exampleConsole) ! (16 * k + 2 * j))
       = rgb (replicate 792 5) (768 + 3 * j)"
    "\<And>k j. k < 16 \<Longrightarrow> j < 8 \<Longrightarrow>
       ourUserSECAMPalette
         (loadUserPalette ''stella.pal'' (Some (replicate 792 5)) exampleConsole) ! (16 * k + 2 * j + 1)
       = 0"
    by simp_all
  have "unat (ourUserNTSCPalette
           (loadUserPalette ''stella.pal'' (Some (replicate 792 5)) exampleConsole) ! 6) = 328965"
    using f(2) [of 3] by (simp add: rgb_def)
  moreover have "ourUserPALPalette
           (loadUserPalette ''stella.pal'' (Some (replicate 792 5)) exampleConsole) ! 7 = 0"
    using f(3) [of 3] by (simp add: tables)
  moreover have "unat (ourUserSECAMPalette
           (loadUserPalette ''stella.pal'' (Some (replicate 792 5)) exampleConsole) ! 38) = 328965"
    using f(4) [of 2 3] by (simp add: rgb_def)
  moreover have "ourUserSECAMPalette
           (loadUserPalette ''stella.pal'' (Some (replicate 792 5)) exampleConsole) ! 39 = 0"
    using f(5) [of 2 3] by simp
  ultimately show ?thesis using none short f(1) len by (simp add: tables)
qed

end
